theory Spec2Isabelle
  imports Main "HOL-Library.Word"
begin

section \<open>Bytes, faults and the serial device\<close>

text \<open>
  A \<open>std::byte\<close> and a \<open>char\<close> of the source are both a \<^typ>\<open>char\<close> here, a
  \<open>std::string_view\<close> and the contents of a byte buffer are a \<^typ>\<open>char list\<close>.
  The integer types are those of an LP64 host: \<open>uint32_t\<close> and \<open>int\<close> have 32 bits
  (a \<^typ>\<open>32 word\<close> where the source computes with them), \<open>size_t\<close> has 64 bits and
  is a \<^typ>\<open>nat\<close>, with the conversion written out where an \<open>int\<close> becomes a
  \<open>size_t\<close>.
\<close>

abbreviation NUL :: char where "NUL \<equiv> CHR 0x00"
abbreviation dquote :: char where "dquote \<equiv> CHR 0x22"
abbreviation crlf :: string where "crlf \<equiv> [CHR 0x0D, CHR 0x0A]"

text \<open>
  Where the C++ program would read or write outside a buffer, or convert a number that
  its destination cannot hold, its behaviour is undefined; the model returns a fault.
\<close>

datatype fault = OutOfBounds | UndefinedConversion

text \<open>
  The serial device is not part of the driver; the model keeps what the driver can
  observe of it: \<open>rx\<close>, the bytes received and not yet read, and \<open>tx\<close>, every byte
  written so far. \<open>flush\<close> empties the receive buffer, \<open>read\<close> hands out as many of
  the available bytes as the destination holds. The busy-wait after a write returns
  and has no effect on either field.
\<close>

record serial =
  rx :: "char list"
  tx :: "char list"

definition serial_write :: "char list \<Rightarrow> serial \<Rightarrow> serial" where
  "serial_write bs s = s\<lparr>tx := tx s @ bs\<rparr>"

definition serial_flush :: "serial \<Rightarrow> serial" where
  "serial_flush s = s\<lparr>rx := []\<rparr>"

definition bytes_available :: "serial \<Rightarrow> nat" where
  "bytes_available s = length (rx s)"

definition serial_read :: "nat \<Rightarrow> serial \<Rightarrow> char list \<times> serial" where
  "serial_read n s = (take n (rx s), s\<lparr>rx := drop n (rx s)\<rparr>)"

text \<open>The peer of the device: bytes arriving on the line.\<close>

definition serial_receive :: "char list \<Rightarrow> serial \<Rightarrow> serial" where
  "serial_receive bs s = s\<lparr>rx := rx s @ bs\<rparr>"

section \<open>Spans over the driver's memory\<close>

text \<open>
  A \<open>std::span\<close> is a pointer and a size. The driver forms spans over string
  literals, over its scratch packet array and over the caller's response buffer.
  Forming a span touches no memory; loading or storing through it outside the
  buffer it points into is the fault.
\<close>

datatype span =
  literal "char list"
  | packet_span nat nat
  | response_span nat nat

fun span_size :: "span \<Rightarrow> nat" where
  "span_size (literal bs) = length bs"
| "span_size (packet_span off n) = n"
| "span_size (response_span off n) = n"

definition load :: "char list \<Rightarrow> nat \<Rightarrow> nat \<Rightarrow> fault + char list" where
  "load mem off n = (if off + n \<le> length mem then Inr (take n (drop off mem)) else Inl OutOfBounds)"

definition store :: "char list \<Rightarrow> nat \<Rightarrow> char list \<Rightarrow> fault + char list" where
  "store mem off bs =
     (if bs = [] then Inr mem
      else if off + length bs \<le> length mem
      then Inr (take off mem @ bs @ drop (off + length bs) mem)
      else Inl OutOfBounds)"

fun span_load :: "char list \<Rightarrow> char list \<Rightarrow> span \<Rightarrow> fault + char list" where
  "span_load pk rs (literal bs) = Inr bs"
| "span_load pk rs (packet_span off n) = load pk off n"
| "span_load pk rs (response_span off n) = load rs off n"

text \<open>
  \<open>span_store pk rs sp i bs\<close> writes \<open>bs\<close> at index \<open>i\<close> of the span and returns
  the two buffers.
\<close>

fun span_store ::
  "char list \<Rightarrow> char list \<Rightarrow> span \<Rightarrow> nat \<Rightarrow> char list \<Rightarrow> fault + (char list \<times> char list)" where
  "span_store pk rs (literal xs) i bs = (if bs = [] then Inr (pk, rs) else Inl OutOfBounds)"
| "span_store pk rs (packet_span off n) i bs =
     (case store pk (off + i) bs of Inl f \<Rightarrow> Inl f | Inr pk' \<Rightarrow> Inr (pk', rs))"
| "span_store pk rs (response_span off n) i bs =
     (case store rs (off + i) bs of Inl f \<Rightarrow> Inl f | Inr rs' \<Rightarrow> Inr (pk, rs'))"

text \<open>
  A span to read into lies inside a buffer of the driver: inside the packet array or
  the response buffer. A literal is not a buffer to write to; the empty span of the
  constructor takes no byte.
\<close>

fun span_in_bounds :: "char list \<Rightarrow> char list \<Rightarrow> span \<Rightarrow> bool" where
  "span_in_bounds pk rs (literal bs) = (bs = [])"
| "span_in_bounds pk rs (packet_span off n) = (off + n \<le> length pk)"
| "span_in_bounds pk rs (response_span off n) = (off + n \<le> length rs)"

text \<open>
  What a write through a span leaves alone: the other buffer, the size of its own
  buffer, and the bytes of it before and after the span.
\<close>

fun writes_within ::
  "span \<Rightarrow> char list \<Rightarrow> char list \<Rightarrow> char list \<Rightarrow> char list \<Rightarrow> bool" where
  "writes_within (literal bs) pk rs pk' rs' = (pk' = pk \<and> rs' = rs)"
| "writes_within (packet_span off n) pk rs pk' rs' =
     (rs' = rs \<and> length pk' = length pk \<and> take off pk' = take off pk
      \<and> drop (off + n) pk' = drop (off + n) pk)"
| "writes_within (response_span off n) pk rs pk' rs' =
     (pk' = pk \<and> length rs' = length rs \<and> take off rs' = take off rs
      \<and> drop (off + n) rs' = drop (off + n) rs)"

text \<open>
  \<open>std::span::subspan(offset, count)\<close> on the response buffer; a count of
  \<open>dynamic_extent\<close> (\<open>SIZE_MAX\<close>) means the rest of the span.
\<close>

definition dynamic_extent :: nat where
  "dynamic_extent = 2 ^ 64 - 1"

definition response_subspan :: "char list \<Rightarrow> nat \<Rightarrow> nat \<Rightarrow> span" where
  "response_subspan rs off cnt =
     response_span off (if cnt = dynamic_extent then length rs - off else cnt)"

text \<open>The conversion of an \<open>int\<close> to \<open>size_t\<close>: sign extension to 64 bits.\<close>

definition size_t_of_int :: "int \<Rightarrow> nat" where
  "size_t_of_int i = nat (i mod 2 ^ 64)"

section \<open>The scan-for-sequence reader (class \<open>command_and_find_response\<close>)\<close>

record command_and_find_response =
  m_search_index :: nat
  m_sent_command :: bool
  m_command :: span
  m_sequence :: "char list"

definition new_search ::
  "span \<Rightarrow> char list \<Rightarrow> command_and_find_response \<Rightarrow> command_and_find_response" where
  "new_search p_command p_sequence c =
     c\<lparr>m_search_index := 0, m_sent_command := False,
       m_command := p_command, m_sequence := p_sequence\<rparr>"

text \<open>
  The comparison of \<open>done()\<close>: \<open>m_sequence[m_search_index++] != received_byte[0]\<close>
  resets the index to 0, a match keeps the incremented index.
\<close>

definition advance :: "char list \<Rightarrow> nat \<Rightarrow> char \<Rightarrow> nat" where
  "advance sq i b = (if sq ! i \<noteq> b then 0 else i + 1)"

text \<open>The first part of \<open>done()\<close> after the completion test: the command is written once.\<close>

definition send_command ::
  "char list \<Rightarrow> char list \<Rightarrow> command_and_find_response \<Rightarrow> serial
     \<Rightarrow> fault + (command_and_find_response \<times> serial)" where
  "send_command pk rs c s =
     (if \<not> m_sent_command c
      then (case span_load pk rs (m_command c) of
              Inl f \<Rightarrow> Inl f
            | Inr bs \<Rightarrow> Inr (c\<lparr>m_sent_command := True\<rparr>, serial_write bs s))
      else Inr (c, s))"

definition commander_done ::
  "char list \<Rightarrow> char list \<Rightarrow> command_and_find_response \<Rightarrow> serial
     \<Rightarrow> fault + (bool \<times> command_and_find_response \<times> serial)" where
  "commander_done pk rs c s =
     (if m_search_index c = length (m_sequence c) then Inr (True, c, s)
      else
        (case send_command pk rs c s of
           Inl f \<Rightarrow> Inl f
         | Inr (c1, s1) \<Rightarrow>
             if 1 \<le> bytes_available s1
             then (case serial_read 1 s1 of
                     (received_byte, s2) \<Rightarrow>
                       if length (m_sequence c1) < m_search_index c1 then Inl OutOfBounds
                       else Inr (False,
                                 c1\<lparr>m_search_index :=
                                      advance (m_sequence c1) (m_search_index c1) (received_byte ! 0)\<rparr>,
                                 s2))
             else Inr (False, c1, s1)))"

section \<open>The integer reader (class \<open>read_integer\<close>)\<close>

definition isdigit :: "char \<Rightarrow> bool" where
  "isdigit c = (48 \<le> (of_char c :: nat) \<and> (of_char c :: nat) \<le> 57)"

record read_integer =
  m_finished :: bool
  m_found_digit :: bool
  m_integer :: "32 word"

definition restart :: "read_integer \<Rightarrow> read_integer" where
  "restart r = r\<lparr>m_finished := False, m_found_digit := False, m_integer := 0\<rparr>"

text \<open>One received byte, the body of \<open>if (m_serial.bytes_available() >= 1U)\<close>.\<close>

definition accept_byte :: "char \<Rightarrow> read_integer \<Rightarrow> read_integer" where
  "accept_byte b r =
     (if isdigit b
      then r\<lparr>m_integer := m_integer r * 10 + (of_char b - of_char (CHR ''0'')),
             m_found_digit := True\<rparr>
      else if m_found_digit r then r\<lparr>m_finished := True\<rparr>
      else r)"

definition integer_done :: "read_integer \<Rightarrow> serial \<Rightarrow> bool \<times> read_integer \<times> serial" where
  "integer_done r s =
     (if m_finished r then (True, r, s)
      else if 1 \<le> bytes_available s
      then (case serial_read 1 s of
              (received_byte, s1) \<Rightarrow>
                (let r1 = accept_byte (received_byte ! 0) r in (m_finished r1, r1, s1)))
      else (m_finished r, r, s))"

definition get :: "read_integer \<Rightarrow> 32 word" where
  "get r = m_integer r"

section \<open>The fixed-length reader (class \<open>read_into_buffer\<close>)\<close>

text \<open>
  \<open>m_read_index\<close> is an \<open>int\<close>, kept as its 32 bits. Where the source compares it
  with a size or passes it to \<open>subspan\<close> it becomes a \<open>size_t\<close>; the sum of
  \<open>+=\<close> is computed in \<open>size_t\<close> and stored back into the 32 bits.
\<close>

record read_into_buffer =
  m_memory :: span
  m_read_index :: "32 word"

definition new_buffer :: "span \<Rightarrow> read_into_buffer \<Rightarrow> read_into_buffer" where
  "new_buffer p_memory r = r\<lparr>m_memory := p_memory, m_read_index := 0\<rparr>"

text \<open>The read index as the \<open>size_t\<close> that the comparison and \<open>subspan\<close> see.\<close>

definition read_offset :: "read_into_buffer \<Rightarrow> nat" where
  "read_offset r = size_t_of_int (sint (m_read_index r))"

text \<open>
  \<open>done()\<close> reads into \<open>m_memory.subspan(m_read_index)\<close>: at most the bytes the span
  still lacks; an offset beyond the size of the span is outside it. It returns false
  on the call that reads, also when the read fills the span. The result carries the
  packet array and the response buffer as the read left them.
\<close>

definition reader_done ::
  "char list \<Rightarrow> char list \<Rightarrow> read_into_buffer \<Rightarrow> serial
     \<Rightarrow> fault + (bool \<times> read_into_buffer \<times> serial \<times> char list \<times> char list)" where
  "reader_done pk rs r s =
     (if read_offset r = span_size (m_memory r) then Inr (True, r, s, pk, rs)
      else if span_size (m_memory r) < read_offset r then Inl OutOfBounds
      else
        (case serial_read (span_size (m_memory r) - read_offset r) s of
           (received, s1) \<Rightarrow>
             (case span_store pk rs (m_memory r) (read_offset r) received of
                Inl f \<Rightarrow> Inl f
              | Inr (pk1, rs1) \<Rightarrow>
                  Inr (False,
                       r\<lparr>m_read_index := of_nat ((read_offset r + length received) mod 2 ^ 64)\<rparr>,
                       s1, pk1, rs1))))"

section \<open>The response header parser\<close>

record header_t =
  status_code :: "32 word"
  content_length :: nat
  header_length :: nat

definition is_valid :: "header_t \<Rightarrow> bool" where
  "is_valid h = (status_code h \<noteq> 0 \<and> content_length h \<noteq> 0 \<and> header_length h \<noteq> 0)"

definition failure_header :: header_t where
  "failure_header = \<lparr>status_code = 0, content_length = 0, header_length = 0\<rparr>"

text \<open>\<open>std::string_view::find\<close>: the index of the first occurrence, if any.\<close>

fun starts_with :: "char list \<Rightarrow> char list \<Rightarrow> bool" where
  "starts_with hay [] = True"
| "starts_with [] (n # ns) = False"
| "starts_with (h # hs) (n # ns) = (h = n \<and> starts_with hs ns)"

fun find_from :: "nat \<Rightarrow> char list \<Rightarrow> char list \<Rightarrow> nat option" where
  "find_from i [] needle = (if needle = [] then Some i else None)"
| "find_from i (h # hs) needle =
     (if starts_with (h # hs) needle then Some i else find_from (Suc i) hs needle)"

definition find :: "char list \<Rightarrow> char list \<Rightarrow> nat option" where
  "find hay needle = find_from 0 hay needle"

text \<open>
  \<open>sscanf\<close> with a literal prefix and one \<open>%u\<close> conversion (\<open>PRIu32\<close>), run on
  the bytes of the packet array that follow the literal. The conversion skips white
  space, takes an optional sign and then decimal digits, and stops at the first byte
  that is not a digit (the terminating \<open>NUL\<close> of a string is one). No digit gives no
  conversion, and the call then returns a count other than 1. The array is not a
  terminated string: a scan that runs off its end reads past the array. A number that
  a 32-bit unsigned cannot hold is an undefined conversion.
\<close>

definition isspace :: "char \<Rightarrow> bool" where
  "isspace c = (c = CHR '' '' \<or> (9 \<le> (of_char c :: nat) \<and> (of_char c :: nat) \<le> 13))"

fun skip_space :: "char list \<Rightarrow> char list" where
  "skip_space [] = []"
| "skip_space (c # cs) = (if isspace c then skip_space cs else c # cs)"

definition digit_value :: "char \<Rightarrow> nat" where
  "digit_value c = of_char c - 48"

fun scan_digits :: "nat \<Rightarrow> char list \<Rightarrow> nat option" where
  "scan_digits acc [] = None"
| "scan_digits acc (c # cs) =
     (if isdigit c then scan_digits (acc * 10 + digit_value c) cs else Some acc)"

definition scan_number :: "bool \<Rightarrow> char list \<Rightarrow> fault + 32 word option" where
  "scan_number negative ds =
     (case ds of
        [] \<Rightarrow> Inl OutOfBounds
      | d # _ \<Rightarrow>
          if \<not> isdigit d then Inr None
          else (case scan_digits 0 ds of
                  None \<Rightarrow> Inl OutOfBounds
                | Some v \<Rightarrow>
                    if 2 ^ 32 \<le> v then Inl UndefinedConversion
                    else Inr (Some (if negative then - of_nat v else of_nat v))))"

definition scan_unsigned :: "char list \<Rightarrow> fault + 32 word option" where
  "scan_unsigned inp =
     (case skip_space inp of
        [] \<Rightarrow> Inl OutOfBounds
      | c # cs \<Rightarrow>
          if c = CHR ''-'' then scan_number True cs
          else if c = CHR ''+'' then scan_number False cs
          else scan_number False (c # cs))"

text \<open>
  \<open>response_header_from_string\<close>. The two \<open>sscanf\<close> calls start at the found index;
  their literals \<open>HTTP/1.1\<close> (8 bytes) and \<open>Content-Length:\<close> (15 bytes) match what
  \<open>find\<close> found, and the white space of the format is skipped by the conversion. The
  \<open>uint32_t\<close> that the second call writes becomes the \<open>size_t\<close> content length.
\<close>

definition response_header_from_string :: "char list \<Rightarrow> fault + header_t" where
  "response_header_from_string header_info =
     (case find header_info ''HTTP/1.1 '' of
        None \<Rightarrow> Inr failure_header
      | Some i1 \<Rightarrow>
          (case scan_unsigned (drop (i1 + 8) header_info) of
             Inl f \<Rightarrow> Inl f
           | Inr None \<Rightarrow> Inr failure_header
           | Inr (Some status) \<Rightarrow>
               (case find header_info ''Content-Length: '' of
                  None \<Rightarrow> Inr failure_header
                | Some i2 \<Rightarrow>
                    (case scan_unsigned (drop (i2 + 15) header_info) of
                       Inl f \<Rightarrow> Inl f
                     | Inr None \<Rightarrow> Inr failure_header
                     | Inr (Some len) \<Rightarrow>
                         (case find header_info (crlf @ crlf) of
                            None \<Rightarrow> Inr failure_header
                          | Some i3 \<Rightarrow>
                              Inr \<lparr>status_code = status, content_length = unat len,
                                   header_length = i3 + length (crlf @ crlf)\<rparr>)))))"

section \<open>Formatting the request\<close>

datatype http_method = GET | HEAD | POST | PUT | DELETE | CONNECT | OPTIONS | TRACE | PATCH

text \<open>The field \<open>method\<close> of the source is \<open>request_method\<close> here.\<close>

record request_t =
  domain :: string
  path :: string
  request_method :: http_method
  send_data :: "char list"
  port :: string

text \<open>
  \<open>%s\<close> prints the characters at \<open>data()\<close> up to the first \<open>NUL\<close>; the views of a
  request are taken to point at terminated strings.
\<close>

definition c_str :: "string \<Rightarrow> string" where
  "c_str s = takeWhile (\<lambda>c. c \<noteq> NUL) s"

text \<open>\<open>%d\<close>: the decimal digits of an \<open>int\<close>.\<close>

definition digit_char :: "nat \<Rightarrow> char" where
  "digit_char n = ''0123456789'' ! n"

function dec :: "nat \<Rightarrow> string" where
  "dec n = (if n < 10 then [digit_char n] else dec (n div 10) @ [digit_char (n mod 10)])"
  by pat_completeness auto
termination
  by (relation "measure id") auto

definition print_int :: "int \<Rightarrow> string" where
  "print_int i = (if i < 0 then CHR ''-'' # dec (nat (- i)) else dec (nat i))"

text \<open>
  \<open>snprintf(buffer, size, ...)\<close> for the formatted text \<open>out\<close>: it stores as much of
  \<open>out\<close> as fits before a terminating \<open>NUL\<close> and returns the length of \<open>out\<close>,
  whether or not all of it fit; the return value is negative only when that length
  is more than \<open>INT_MAX\<close>.
\<close>

definition snprintf :: "char list \<Rightarrow> string \<Rightarrow> char list \<times> int" where
  "snprintf buffer out =
     (if 2 ^ 31 \<le> length out then (buffer, - 1)
      else if buffer = [] then (buffer, int (length out))
      else (let k = min (length out) (length buffer - 1)
            in (take k out @ [NUL] @ drop (k + 1) buffer, int (length out))))"

definition http_request :: "request_t \<Rightarrow> string" where
  "http_request r =
     ''GET '' @ c_str (path r) @ '' HTTP/1.1'' @ crlf
     @ ''Host: '' @ c_str (domain r) @ '':'' @ c_str (port r) @ crlf
     @ crlf @ crlf"

definition cipsend_command :: "int \<Rightarrow> string" where
  "cipsend_command n = ''AT+CIPSEND='' @ print_int n @ crlf"

section \<open>The driver (class \<open>esp8266\<close>)\<close>

datatype state =
  reset
  | disable_echo
  | configure_as_http_client
  | attempting_ap_connection
  | connected_to_ap
  | connecting_to_server
  | preparing_request
  | sending_request
  | get_first_packet_length
  | reading_first_packet
  | parsing_header
  | get_packet_length
  | read_packet_into_response
  | get_next_packet
  | close_connection
  | close_connection_failure
  | complete
  | failure

text \<open>The last value of \<open>read_state\<close> is \<open>complete\<close> in the source.\<close>

datatype read_state = until_sequence | into_buffer | integer | read_complete

definition ok_response :: "char list" where
  "ok_response = ''OK'' @ crlf"

definition maximum_response_packet_size :: nat where
  "maximum_response_packet_size = 1460"

text \<open>
  \<open>m_response\<close> is the caller's buffer that the span of the source views: its
  contents, and with them its size. \<open>m_request_length\<close> only ever holds what
  \<open>snprintf\<close> returned; \<open>m_response_position\<close> is an \<open>int\<close> the source adds to, kept
  as its 32 bits.
\<close>

record esp8266 =
  m_serial :: serial
  m_response :: "char list"
  m_ssid :: string
  m_password :: string
  m_commander :: command_and_find_response
  m_reader :: read_into_buffer
  m_integer_reader :: read_integer
  m_packet :: "char list"
  m_request :: request_t
  m_header :: header_t
  m_state :: state
  m_next_state :: state
  m_read_state :: read_state
  m_request_length :: int
  m_response_position :: "32 word"

text \<open>The constructor, with the default member initialisers of the classes.\<close>

definition new_esp8266 :: "serial \<Rightarrow> string \<Rightarrow> string \<Rightarrow> char list \<Rightarrow> esp8266" where
  "new_esp8266 p_serial p_ssid p_password p_response =
     \<lparr>m_serial = p_serial,
      m_response = p_response,
      m_ssid = p_ssid,
      m_password = p_password,
      m_commander = \<lparr>m_search_index = 0, m_sent_command = False,
                     m_command = literal [], m_sequence = []\<rparr>,
      m_reader = \<lparr>m_memory = literal [], m_read_index = 0\<rparr>,
      m_integer_reader = \<lparr>m_finished = True, m_found_digit = False, m_integer = 0\<rparr>,
      m_packet = replicate maximum_response_packet_size NUL,
      m_request = \<lparr>domain = [], path = ''/'', request_method = GET, send_data = [], port = ''80''\<rparr>,
      m_header = failure_header,
      m_state = reset,
      m_next_state = reset,
      m_read_state = read_complete,
      m_request_length = 0,
      m_response_position = 0\<rparr>"

text \<open>
  The private \<open>write\<close> of the class: flush, write, wait until the device is not
  busy.
\<close>

definition write_string :: "string \<Rightarrow> esp8266 \<Rightarrow> esp8266" where
  "write_string p_string d = d\<lparr>m_serial := serial_write p_string (serial_flush (m_serial d))\<rparr>"

definition search :: "span \<Rightarrow> char list \<Rightarrow> esp8266 \<Rightarrow> esp8266" where
  "search p_command p_sequence d =
     d\<lparr>m_commander := new_search p_command p_sequence (m_commander d)\<rparr>"

text \<open>
  \<open>std::copy_n(m_packet.begin() + first, n, m_response.begin())\<close>: it reads \<open>n\<close> bytes
  of the packet array and writes them at the start of the response buffer.
\<close>

definition copy_to_response :: "nat \<Rightarrow> nat \<Rightarrow> esp8266 \<Rightarrow> fault + esp8266" where
  "copy_to_response first n d =
     (case load (m_packet d) first n of
        Inl f \<Rightarrow> Inl f
      | Inr bs \<Rightarrow>
          (case store (m_response d) 0 bs of
             Inl f \<Rightarrow> Inl f
           | Inr rs \<Rightarrow> Inr (d\<lparr>m_response := rs\<rparr>)))"

subsection \<open>The cases of \<open>transition_state\<close>\<close>

definition on_attempting_ap_connection :: "esp8266 \<Rightarrow> esp8266" where
  "on_attempting_ap_connection d =
     (let d1 = write_string (''AT+CWJAP_CUR='' @ [dquote]) d;
          d2 = write_string (m_ssid d1) d1;
          d3 = write_string ([dquote] @ '','' @ [dquote]) d2;
          d4 = write_string (m_password d3) d3;
          d5 = search (literal ([dquote] @ crlf)) ok_response d4
      in d5\<lparr>m_next_state := connected_to_ap, m_read_state := until_sequence\<rparr>)"

definition on_connecting_to_server :: "esp8266 \<Rightarrow> esp8266" where
  "on_connecting_to_server d =
     (let d1 = write_string (''AT+CIPSTART='' @ [dquote] @ ''TCP'' @ [dquote] @ '','' @ [dquote]) d;
          d2 = write_string (domain (m_request d1)) d1;
          d3 = write_string ([dquote] @ '','') d2;
          d4 = write_string (port (m_request d3)) d3;
          d5 = search (literal crlf) ok_response d4
      in d5\<lparr>m_next_state := preparing_request, m_read_state := until_sequence\<rparr>)"

definition on_sending_request :: "esp8266 \<Rightarrow> esp8266" where
  "on_sending_request d =
     (let d1 = search (response_subspan (m_response d) 0 (size_t_of_int (m_request_length d)))
                 ''+IPD,'' d
      in d1\<lparr>m_next_state := get_first_packet_length, m_read_state := until_sequence\<rparr>)"

text \<open>
  The case \<open>preparing_request\<close> has no \<open>break\<close> at its end: control falls through
  into the case \<open>sending_request\<close>.
\<close>

definition on_preparing_request :: "esp8266 \<Rightarrow> esp8266" where
  "on_preparing_request d =
     (case snprintf (m_response d) (http_request (m_request d)) of
        (formatted, request_length) \<Rightarrow>
          (let d1 = d\<lparr>m_response := formatted, m_request_length := request_length\<rparr>
           in if m_request_length d1 < 0
              then d1\<lparr>m_next_state := close_connection_failure\<rparr>
              else
                (case snprintf (replicate 64 NUL) (cipsend_command (m_request_length d1)) of
                   (buffer, cipsend_command_length) \<Rightarrow>
                     if cipsend_command_length < 0
                     then d1\<lparr>m_next_state := close_connection_failure\<rparr>
                     else
                       (let d2 = write_string (take (nat cipsend_command_length) buffer) d1;
                            d3 = search (literal []) ok_response d2;
                            d4 = d3\<lparr>m_next_state := sending_request,
                                    m_read_state := until_sequence\<rparr>
                        in on_sending_request d4))))"

definition on_parsing_header :: "esp8266 \<Rightarrow> fault + esp8266" where
  "on_parsing_header d =
     (case response_header_from_string (m_packet d) of
        Inl f \<Rightarrow> Inl f
      | Inr h \<Rightarrow>
          (let d1 = d\<lparr>m_header := h\<rparr>
           in if \<not> is_valid (m_header d1)
              then Inr (d1\<lparr>m_next_state := close_connection_failure\<rparr>)
              else if length (m_response d1) < content_length (m_header d1)
              then Inr (d1\<lparr>m_next_state := close_connection_failure\<rparr>)
              else if unat (get (m_integer_reader d1)) < maximum_response_packet_size
              then (case copy_to_response (header_length (m_header d1))
                           (content_length (m_header d1)) d1 of
                      Inl f \<Rightarrow> Inl f
                    | Inr d2 \<Rightarrow> Inr (d2\<lparr>m_next_state := close_connection\<rparr>))
              else
                (let bytes_retrieved =
                       (2 ^ 64 + unat (get (m_integer_reader d1)) - header_length (m_header d1))
                         mod 2 ^ 64
                 in (case copy_to_response (header_length (m_header d1)) bytes_retrieved d1 of
                       Inl f \<Rightarrow> Inl f
                     | Inr d2 \<Rightarrow>
                         Inr (d2\<lparr>m_response_position := of_nat bytes_retrieved,
                                 m_next_state := get_packet_length\<rparr>)))))"

definition on_get_next_packet :: "esp8266 \<Rightarrow> esp8266" where
  "on_get_next_packet d =
     (let d1 = d\<lparr>m_response_position := m_response_position d + get (m_integer_reader d)\<rparr>
      in if content_length (m_header d1) \<le> size_t_of_int (sint (m_response_position d1))
         then d1\<lparr>m_next_state := close_connection\<rparr>
         else d1\<lparr>m_next_state := get_packet_length\<rparr>)"

definition transition_state :: "esp8266 \<Rightarrow> fault + esp8266" where
  "transition_state d =
     (case m_state d of
        reset \<Rightarrow> Inr (d\<lparr>m_next_state := disable_echo\<rparr>)
      | disable_echo \<Rightarrow>
          Inr ((search (literal (''ATE0'' @ crlf)) ok_response d)
                 \<lparr>m_next_state := configure_as_http_client, m_read_state := until_sequence\<rparr>)
      | configure_as_http_client \<Rightarrow>
          Inr ((search (literal (''AT+CWMODE=1'' @ crlf)) ok_response d)
                 \<lparr>m_next_state := attempting_ap_connection, m_read_state := until_sequence\<rparr>)
      | attempting_ap_connection \<Rightarrow> Inr (on_attempting_ap_connection d)
      | connected_to_ap \<Rightarrow> Inr d
      | connecting_to_server \<Rightarrow> Inr (on_connecting_to_server d)
      | preparing_request \<Rightarrow> Inr (on_preparing_request d)
      | sending_request \<Rightarrow> Inr (on_sending_request d)
      | get_first_packet_length \<Rightarrow>
          Inr (d\<lparr>m_integer_reader := restart (m_integer_reader d),
                 m_next_state := reading_first_packet, m_read_state := integer\<rparr>)
      | reading_first_packet \<Rightarrow>
          Inr (d\<lparr>m_reader := new_buffer (packet_span 0 (unat (get (m_integer_reader d))))
                               (m_reader d),
                 m_next_state := parsing_header, m_read_state := into_buffer\<rparr>)
      | parsing_header \<Rightarrow> on_parsing_header d
      | get_packet_length \<Rightarrow>
          Inr (d\<lparr>m_integer_reader := restart (m_integer_reader d),
                 m_next_state := read_packet_into_response, m_read_state := integer\<rparr>)
      | read_packet_into_response \<Rightarrow>
          Inr (d\<lparr>m_reader :=
                   new_buffer (response_subspan (m_response d)
                                 (size_t_of_int (sint (m_response_position d)))
                                 (unat (get (m_integer_reader d))))
                     (m_reader d),
                 m_next_state := get_next_packet, m_read_state := into_buffer\<rparr>)
      | get_next_packet \<Rightarrow> Inr (on_get_next_packet d)
      | close_connection \<Rightarrow>
          Inr ((search (literal (''AT+CIPCLOSE'' @ crlf)) ok_response d)
                 \<lparr>m_next_state := complete, m_read_state := until_sequence\<rparr>)
      | close_connection_failure \<Rightarrow>
          Inr ((search (literal (''AT+CIPCLOSE'' @ crlf)) ok_response d)
                 \<lparr>m_next_state := failure, m_read_state := until_sequence\<rparr>)
      | complete \<Rightarrow> Inr d
      | failure \<Rightarrow> Inr d)"

subsection \<open>The public functions\<close>

definition change_access_point :: "string \<Rightarrow> string \<Rightarrow> esp8266 \<Rightarrow> esp8266" where
  "change_access_point p_ssid p_password d =
     d\<lparr>m_ssid := p_ssid, m_password := p_password, m_next_state := connected_to_ap\<rparr>"

definition request :: "request_t \<Rightarrow> esp8266 \<Rightarrow> fault + esp8266" where
  "request p_request d =
     transition_state (d\<lparr>m_request := p_request, m_next_state := connecting_to_server\<rparr>)"

text \<open>
  \<open>get_status\<close> returns the driver as the call leaves it; the phase it reports is
  \<open>m_state\<close> of the result.
\<close>

definition poll_reader :: "esp8266 \<Rightarrow> fault + esp8266" where
  "poll_reader d =
     (case m_read_state d of
        until_sequence \<Rightarrow>
          (case commander_done (m_packet d) (m_response d) (m_commander d) (m_serial d) of
             Inl f \<Rightarrow> Inl f
           | Inr (fin, c, s) \<Rightarrow>
               Inr (d\<lparr>m_serial := s, m_commander := c,
                      m_read_state := (if fin then read_complete else until_sequence)\<rparr>))
      | into_buffer \<Rightarrow>
          (case reader_done (m_packet d) (m_response d) (m_reader d) (m_serial d) of
             Inl f \<Rightarrow> Inl f
           | Inr (fin, r, s, pk, rs) \<Rightarrow>
               Inr (d\<lparr>m_serial := s, m_response := rs, m_reader := r, m_packet := pk,
                      m_read_state := (if fin then read_complete else into_buffer)\<rparr>))
      | integer \<Rightarrow>
          (case integer_done (m_integer_reader d) (m_serial d) of
             (fin, r, s) \<Rightarrow>
               Inr (d\<lparr>m_serial := s, m_integer_reader := r,
                      m_read_state := (if fin then read_complete else integer)\<rparr>))
      | read_complete \<Rightarrow> transition_state (d\<lparr>m_state := m_next_state d\<rparr>))"

definition get_status :: "esp8266 \<Rightarrow> fault + esp8266" where
  "get_status d =
     (case (if m_state d = reset then transition_state d else Inr d) of
        Inl f \<Rightarrow> Inl f
      | Inr d1 \<Rightarrow> poll_reader d1)"

definition response :: "esp8266 \<Rightarrow> char list" where
  "response d = m_response d"

definition connected :: "esp8266 \<Rightarrow> bool" where
  "connected d =
     (m_state d \<notin> {reset, disable_echo, configure_as_http_client, attempting_ap_connection})"

subsection \<open>Runs of the driver\<close>

text \<open>
  A caller polls the driver while the peer sends bytes: a run is a list of events,
  each a number of \<open>get_status\<close> calls, bytes arriving on the line, or a call of
  \<open>request\<close> or \<open>change_access_point\<close>. A fault ends the run.
\<close>

primrec polls :: "nat \<Rightarrow> esp8266 \<Rightarrow> fault + esp8266" where
  "polls 0 d = Inr d"
| "polls (Suc n) d = (case get_status d of Inl f \<Rightarrow> Inl f | Inr d' \<Rightarrow> polls n d')"

datatype event =
  Poll nat
  | Receive "char list"
  | Request request_t
  | ChangeAccessPoint string string

fun apply_event :: "event \<Rightarrow> esp8266 \<Rightarrow> fault + esp8266" where
  "apply_event (Poll n) d = polls n d"
| "apply_event (Receive bs) d = Inr (d\<lparr>m_serial := serial_receive bs (m_serial d)\<rparr>)"
| "apply_event (Request r) d = request r d"
| "apply_event (ChangeAccessPoint s p) d = Inr (change_access_point s p d)"

fun run :: "event list \<Rightarrow> esp8266 \<Rightarrow> fault + esp8266" where
  "run [] d = Inr d"
| "run (e # es) d = (case apply_event e d of Inl f \<Rightarrow> Inl f | Inr d' \<Rightarrow> run es d')"

text \<open>A property of the driver a run ends in; a run that faults has none.\<close>

definition ends_with :: "(esp8266 \<Rightarrow> bool) \<Rightarrow> fault + esp8266 \<Rightarrow> bool" where
  "ends_with P r = (case r of Inl f \<Rightarrow> False | Inr d \<Rightarrow> P d)"

subsection \<open>The scenarios of the specification\<close>

text \<open>
  A driver on an idle line, with the credentials \<open>net\<close> and \<open>pw\<close> and a response
  buffer of \<open>n\<close> bytes.
\<close>

definition fresh :: "nat \<Rightarrow> esp8266" where
  "fresh n = new_esp8266 \<lparr>rx = [], tx = []\<rparr> ''net'' ''pw'' (replicate n NUL)"

text \<open>
  Association: every command is answered by \<open>OK\<close> once it is on the line. Two polls
  enter a phase and send its command, five polls read the four bytes of the reply and
  see the reader done; the last poll enters \<open>connected_to_ap\<close>. In the runs below
  a reply arrives after its command and is read to its end before the driver writes
  again, so the receive buffer is empty whenever the driver flushes it.
\<close>

definition association :: "event list" where
  "association =
     [Poll 2, Receive (''OK'' @ crlf), Poll 5,
      Poll 2, Receive (''OK'' @ crlf), Poll 5,
      Poll 2, Receive (''OK'' @ crlf), Poll 5,
      Poll 1]"

definition example_request :: request_t where
  "example_request =
     \<lparr>domain = ''example.com'', path = ''/'', request_method = GET, send_data = [], port = ''80''\<rparr>"

definition other_request :: request_t where
  "other_request =
     \<lparr>domain = ''example.org'', path = ''/x'', request_method = GET, send_data = [], port = ''8080''\<rparr>"

text \<open>The 43 bytes of the response of the single-packet scenario.\<close>

definition hello_packet :: "char list" where
  "hello_packet =
     ''HTTP/1.1 200 OK'' @ crlf @ ''Content-Length: 5'' @ crlf @ crlf @ ''hello''"

text \<open>
  The request up to the entry into \<open>preparing_request\<close>: \<open>AT+CIPSTART\<close> is sent and
  answered, and one more poll enters the phase.
\<close>

definition start_request :: "request_t \<Rightarrow> event list" where
  "start_request r = [Request r, Poll 2, Receive (''OK'' @ crlf), Poll 5, Poll 1]"

text \<open>
  A first \<open>+IPD\<close> frame that announces \<open>n\<close> bytes and carries \<open>payload\<close>, after
  the reply to \<open>AT+CIPSEND\<close>. With two digits in \<open>n\<close> and the announced bytes on the
  line, the last of the 17 polls enters \<open>parsing_header\<close>.
\<close>

definition first_packet :: "string \<Rightarrow> char list \<Rightarrow> event list" where
  "first_packet n payload =
     start_request example_request
     @ [Receive (''OK'' @ crlf), Poll 1,
        Receive (''+IPD,'' @ n @ '':'' @ payload), Poll 17]"

text \<open>
  The single-packet GET with the first packet announced as \<open>n\<close> bytes, up to the
  reply to \<open>AT+CIPCLOSE\<close>.
\<close>

definition single_packet_get :: "string \<Rightarrow> event list" where
  "single_packet_get n =
     first_packet n hello_packet @ [Poll 2, Receive (''OK'' @ crlf), Poll 6]"

text \<open>
  A request in flight: the request is sent, the preamble \<open>+IPD,\<close> is found, and the
  last poll enters \<open>get_first_packet_length\<close>.
\<close>

definition awaiting_length :: "event list" where
  "awaiting_length =
     start_request example_request
     @ [Receive (''OK'' @ crlf), Poll 1, Receive ''+IPD,'', Poll 10]"

text \<open>What the driver has written once it is associated, and once it has connected.\<close>

definition association_log :: "char list" where
  "association_log =
     ''ATE0'' @ crlf @ ''AT+CWMODE=1'' @ crlf
     @ ''AT+CWJAP_CUR='' @ [dquote] @ ''net'' @ [dquote] @ '','' @ [dquote] @ ''pw'' @ [dquote]
     @ crlf"

definition connection_log :: "char list" where
  "connection_log =
     association_log
     @ ''AT+CIPSTART='' @ [dquote] @ ''TCP'' @ [dquote] @ '','' @ [dquote] @ ''example.com''
     @ [dquote] @ '',80'' @ crlf"

section \<open>Polling a reader on its own\<close>

text \<open>
  \<open>integer_polls n\<close> and \<open>commander_polls n\<close> call \<open>done()\<close> of a reader \<open>n\<close> times
  and return the reader and the serial device as the last call left them.
\<close>

primrec integer_polls :: "nat \<Rightarrow> read_integer \<Rightarrow> serial \<Rightarrow> read_integer \<times> serial" where
  "integer_polls 0 r s = (r, s)"
| "integer_polls (Suc n) r s =
     (case integer_done r s of (fin, r', s') \<Rightarrow> integer_polls n r' s')"

primrec commander_polls ::
  "nat \<Rightarrow> char list \<Rightarrow> char list \<Rightarrow> command_and_find_response \<Rightarrow> serial
     \<Rightarrow> fault + (command_and_find_response \<times> serial)" where
  "commander_polls 0 pk rs c s = Inr (c, s)"
| "commander_polls (Suc n) pk rs c s =
     (case commander_done pk rs c s of
        Inl f \<Rightarrow> Inl f
      | Inr (fin, c', s') \<Rightarrow> commander_polls n pk rs c' s')"

text \<open>The number that a string of decimal digits denotes.\<close>

definition decimal :: "char list \<Rightarrow> nat" where
  "decimal ds = foldl (\<lambda>a c. 10 * a + digit_value c) 0 ds"

text \<open>
  The search index of the scan-for-sequence reader after it was offered the bytes
  \<open>bs\<close> one by one, from the index \<open>i\<close>: each byte moves it as \<open>advance\<close> says, and
  a reader whose index has reached the size of the sequence takes no more bytes.
\<close>

fun cursor :: "char list \<Rightarrow> nat \<Rightarrow> char list \<Rightarrow> nat" where
  "cursor sq i [] = i"
| "cursor sq i (b # bs) = (if i = length sq then i else cursor sq (advance sq i b) bs)"

text \<open>
  Two ways to complete from the index \<open>i\<close>: the bytes continue the match in
  progress, or the sequence occurs later, from a position where the index is 0.
\<close>

definition continues :: "char list \<Rightarrow> nat \<Rightarrow> char list \<Rightarrow> bool" where
  "continues sq i bs = (length sq - i \<le> length bs \<and> take (length sq - i) bs = drop i sq)"

definition occurs :: "char list \<Rightarrow> nat \<Rightarrow> char list \<Rightarrow> bool" where
  "occurs sq i bs =
     (\<exists>j. j + length sq \<le> length bs \<and> cursor sq i (take j bs) = 0
          \<and> take (length sq) (drop j bs) = sq)"

text \<open>
  A first packet that fills the packet array: a header of 41 bytes and the whole body
  of 1419 bytes.
\<close>

definition full_packet :: "char list" where
  "full_packet =
     ''HTTP/1.1 200 OK'' @ crlf @ ''Content-Length: 1419'' @ crlf @ crlf
     @ replicate 1419 (CHR ''x'')"

text \<open>
  A driver with a response buffer of \<open>n\<close> bytes in the phase \<open>st\<close>, with \<open>pk\<close> in its
  packet array, the integer reader finished with the value \<open>v\<close>, and the write
  position \<open>pos\<close>; and the same driver about to enter the phase \<open>st\<close>, while the
  line holds the bytes \<open>bs\<close>.
\<close>

definition in_phase :: "state \<Rightarrow> nat \<Rightarrow> char list \<Rightarrow> 32 word \<Rightarrow> 32 word \<Rightarrow> esp8266" where
  "in_phase st n pk v pos =
     (fresh n)\<lparr>m_state := st, m_packet := pk,
               m_integer_reader := \<lparr>m_finished = True, m_found_digit = True, m_integer = v\<rparr>,
               m_response_position := pos\<rparr>"

definition entering ::
  "state \<Rightarrow> nat \<Rightarrow> char list \<Rightarrow> 32 word \<Rightarrow> 32 word \<Rightarrow> char list \<Rightarrow> esp8266" where
  "entering st n pk v pos bs =
     (in_phase st n pk v pos)\<lparr>m_serial := \<lparr>rx = bs, tx = []\<rparr>, m_next_state := st\<rparr>"

text \<open>Readers and drivers that the examples start from.\<close>

definition ok_search :: command_and_find_response where
  "ok_search =
     \<lparr>m_search_index = 0, m_sent_command = False, m_command = literal ''AT'',
      m_sequence = ''OK'' @ crlf\<rparr>"

definition closing :: esp8266 where
  "closing =
     (fresh 64)\<lparr>m_state := close_connection, m_next_state := complete,
                m_read_state := read_complete\<rparr>"

section \<open>Evaluating runs\<close>

text \<open>
  The runs below are concrete: the simplifier executes them, one poll after the other,
  from the definitions of the model.
\<close>

lemma polls_numeral:
  "polls (numeral k) d =
     (case get_status d of Inl f \<Rightarrow> Inl f | Inr d' \<Rightarrow> polls (pred_numeral k) d')"
  by (simp add: numeral_eq_Suc)

lemma polls_1: "polls 1 d = get_status d"
  by (simp add: One_nat_def split: sum.splits)

lemmas serial_defs =
  serial_read_def serial_write_def serial_flush_def serial_receive_def bytes_available_def

lemmas reader_defs =
  commander_done_def send_command_def advance_def new_search_def
  integer_done_def accept_byte_def restart_def get_def isdigit_def
  reader_done_def read_offset_def new_buffer_def load_def store_def

lemmas format_defs =
  snprintf_def http_request_def c_str_def cipsend_command_def print_int_def dec.simps
  digit_char_def

lemmas parser_defs =
  response_header_from_string_def find_def scan_unsigned_def scan_number_def isspace_def
  digit_value_def is_valid_def failure_header_def

lemmas driver_defs =
  get_status_def poll_reader_def transition_state_def search_def write_string_def
  ok_response_def on_attempting_ap_connection_def on_connecting_to_server_def
  on_sending_request_def on_preparing_request_def on_parsing_header_def
  on_get_next_packet_def request_def change_access_point_def copy_to_response_def
  size_t_of_int_def response_subspan_def dynamic_extent_def response_def
  maximum_response_packet_size_def new_esp8266_def Let_def

lemmas scenario_defs =
  fresh_def association_def example_request_def other_request_def hello_packet_def
  start_request_def first_packet_def single_packet_get_def awaiting_length_def
  association_log_def
  connection_log_def full_packet_def in_phase_def entering_def ends_with_def

lemmas run_defs =
  polls_numeral polls_1 serial_defs reader_defs format_defs parser_defs driver_defs
  scenario_defs

section \<open>The single-packet GET (C4)\<close>

text \<open>
  C4, as the specification states the scenario: the frame announces 85 bytes, and the
  line carries 43 bytes after the colon and then the four bytes of the reply to
  \<open>AT+CIPCLOSE\<close>. The fixed-length reader waits for 85 bytes: the run ends in
  \<open>reading_first_packet\<close> with 47 bytes read and an empty line, in a driver that one
  more \<open>get_status\<close> leaves as it is, so no number of calls reaches \<open>complete\<close>.
\<close>

theorem single_packet_get_85_stalls:
  "ends_with (\<lambda>d. m_state d = reading_first_packet \<and> m_read_index (m_reader d) = 47
                  \<and> rx (m_serial d) = [] \<and> get_status d = Inr d)
     (run (association @ single_packet_get ''85'') (fresh 64))"
  by (simp add: run_defs)

text \<open>
  C4, amended: with the frame announcing the 43 bytes it carries, the polls of the
  scenario reach \<open>complete\<close>, and the parsed header has the status code 200 and the
  content length 5.
\<close>

theorem single_packet_get_completes:
  "ends_with (\<lambda>d. m_state d = complete \<and> status_code (m_header d) = 200
                  \<and> content_length (m_header d) = 5)
     (run (association @ single_packet_get ''43'') (fresh 64))"
  by (simp add: run_defs)

text \<open>
  The view that \<open>response\<close> returns is not part of the statement above. The comment
  on \<open>response\<close> in the source promises a span with a size equal to the number of
  bytes retrieved; the function returns \<open>m_response\<close>, the whole buffer of the
  caller. In the same run the body has five bytes and the view has 64, of which the
  first five are the body.
\<close>

lemma response_is_whole_buffer:
  "ends_with (\<lambda>d. m_state d = complete \<and> content_length (m_header d) = 5
                  \<and> length (response d) = 64 \<and> take 5 (response d) = ''hello'')
     (run (association @ single_packet_get ''43'') (fresh 64))"
  by (simp add: run_defs)

section \<open>The integer reader (C8)\<close>

lemma integer_done_byte:
  "\<not> m_finished r \<Longrightarrow> rx s = b # bs \<Longrightarrow>
   integer_done r s = (m_finished (accept_byte b r), accept_byte b r, s\<lparr>rx := bs\<rparr>)"
  by (simp add: integer_done_def bytes_available_def serial_read_def Let_def)

lemma integer_polls_add:
  "integer_polls (m + n) r s =
     (case integer_polls m r s of (r', s') \<Rightarrow> integer_polls n r' s')"
  by (induction m arbitrary: r s) (simp_all split: prod.splits)

lemma integer_polls_numeral:
  "integer_polls (numeral k) r s =
     (case integer_done r s of (fin, r', s') \<Rightarrow> integer_polls (pred_numeral k) r' s')"
  by (simp add: numeral_eq_Suc)

text \<open>Bytes that are no digits, before any digit, leave the reader as it is.\<close>

lemma skip_prefix:
  "list_all (\<lambda>c. \<not> isdigit c) pre \<Longrightarrow> \<not> m_finished r \<Longrightarrow> \<not> m_found_digit r \<Longrightarrow>
   rx s = pre @ bs \<Longrightarrow>
   integer_polls (length pre) r s = (r, s\<lparr>rx := bs\<rparr>)"
proof (induction pre arbitrary: s)
  case Nil
  then show ?case by simp
next
  case (Cons c pre)
  have "integer_done r s = (False, r, s\<lparr>rx := pre @ bs\<rparr>)"
    using Cons.prems by (simp add: integer_done_byte accept_byte_def)
  then show ?case using Cons by simp
qed

lemma digit_word: "isdigit c \<Longrightarrow> (of_char c - 48 :: 32 word) = of_nat (digit_value c)"
proof -
  assume "isdigit c"
  then have "48 \<le> (of_char c :: nat)" by (simp add: isdigit_def)
  then have "(of_nat (of_char c - 48) :: 32 word) = of_nat (of_char c) - 48"
    by (simp add: of_nat_diff)
  then show ?thesis by (simp add: digit_value_def of_nat_of_char)
qed

text \<open>The 32-bit accumulation is the decimal value, taken in the 32-bit words.\<close>

lemma word_decimal:
  "foldl (\<lambda>w c. w * 10 + of_nat (digit_value c)) (of_nat a :: 32 word) ds
     = of_nat (foldl (\<lambda>a c. 10 * a + digit_value c) a ds)"
proof (induction ds arbitrary: a)
  case Nil
  then show ?case by simp
next
  case (Cons c ds)
  have "(of_nat a :: 32 word) * 10 + of_nat (digit_value c) = of_nat (10 * a + digit_value c)"
    by simp
  then show ?case using Cons.IH [of "10 * a + digit_value c"] by (simp add: mult.commute)
qed

lemma take_digits:
  "list_all isdigit ds \<Longrightarrow> \<not> m_finished r \<Longrightarrow> rx s = ds @ bs \<Longrightarrow>
   integer_polls (length ds) r s =
     (r\<lparr>m_integer := foldl (\<lambda>w c. w * 10 + of_nat (digit_value c)) (m_integer r) ds,
        m_found_digit := (ds \<noteq> [] \<or> m_found_digit r)\<rparr>, s\<lparr>rx := bs\<rparr>)"
proof (induction ds arbitrary: r s)
  case Nil
  then show ?case by simp
next
  case (Cons c ds)
  let ?r = "r\<lparr>m_integer := m_integer r * 10 + of_nat (digit_value c), m_found_digit := True\<rparr>"
  have acc: "accept_byte c r = ?r"
    using Cons.prems by (simp add: accept_byte_def digit_word)
  have step: "integer_done r s = (False, ?r, s\<lparr>rx := ds @ bs\<rparr>)"
    using Cons.prems by (simp add: integer_done_byte acc)
  have "integer_polls (length ds) ?r (s\<lparr>rx := ds @ bs\<rparr>) =
     (?r\<lparr>m_integer := foldl (\<lambda>w c. w * 10 + of_nat (digit_value c)) (m_integer ?r) ds,
        m_found_digit := (ds \<noteq> [] \<or> m_found_digit ?r)\<rparr>, s\<lparr>rx := ds @ bs, rx := bs\<rparr>)"
    using Cons.prems by (intro Cons.IH) simp_all
  then show ?case using step by simp
qed

lemma terminator:
  "\<not> isdigit t \<Longrightarrow> \<not> m_finished r \<Longrightarrow> m_found_digit r \<Longrightarrow> rx s = t # bs \<Longrightarrow>
   integer_done r s = (True, r\<lparr>m_finished := True\<rparr>, s\<lparr>rx := bs\<rparr>)"
  by (simp add: integer_done_byte accept_byte_def)

text \<open>
  C8, as stated, fails for ten digits: the accumulator wraps. The reader that is
  handed \<open>4294967296:\<close> is done after eleven calls and its value is 0.
\<close>

theorem integer_reader_wraps:
  "integer_polls 11 (restart \<lparr>m_finished = True, m_found_digit = False, m_integer = 0\<rparr>)
       \<lparr>rx = ''4294967296:'', tx = []\<rparr>
     = (\<lparr>m_finished = True, m_found_digit = True, m_integer = 0\<rparr>, \<lparr>rx = [], tx = []\<rparr>)
   \<and> decimal ''4294967296'' = 4294967296
   \<and> length ''4294967296'' = 10"
  by (simp add: integer_polls_numeral integer_done_def accept_byte_def restart_def isdigit_def
      serial_defs decimal_def digit_value_def)

text \<open>
  C8, amended: for digits \<open>ds\<close> (at least one), after bytes \<open>pre\<close> that are no
  digits and before a byte \<open>t\<close> that is no digit, the restarted reader is not
  finished after one call for each byte of \<open>pre\<close> and \<open>ds\<close>; the next call takes
  \<open>t\<close>, returns true and leaves the bytes after \<open>t\<close> on the line; and the value is
  the number the digits denote modulo \<open>2 ^ 32\<close>, so the number itself where that is
  below \<open>2 ^ 32\<close> (as for every number of up to nine digits).
\<close>

theorem integer_reader_value:
  assumes pre: "list_all (\<lambda>c. \<not> isdigit c) pre"
    and ds: "ds \<noteq> []" "list_all isdigit ds"
    and t: "\<not> isdigit t"
    and rx: "rx s = pre @ ds @ t # rest"
    and r1: "r1 = \<lparr>m_finished = False, m_found_digit = True, m_integer = of_nat (decimal ds)\<rparr>"
  shows "integer_polls (length pre + length ds) (restart r) s = (r1, s\<lparr>rx := t # rest\<rparr>)
     \<and> integer_done r1 (s\<lparr>rx := t # rest\<rparr>) = (True, r1\<lparr>m_finished := True\<rparr>, s\<lparr>rx := rest\<rparr>)
     \<and> unat (get (r1\<lparr>m_finished := True\<rparr>)) = decimal ds mod 2 ^ 32
     \<and> (decimal ds < 2 ^ 32 \<longrightarrow> unat (get (r1\<lparr>m_finished := True\<rparr>)) = decimal ds)"
proof -
  let ?r0 = "restart r"
  have a: "integer_polls (length pre) ?r0 s = (?r0, s\<lparr>rx := ds @ t # rest\<rparr>)"
    using pre rx by (intro skip_prefix) (simp_all add: restart_def)
  have b: "integer_polls (length ds) ?r0 (s\<lparr>rx := ds @ t # rest\<rparr>) =
     (?r0\<lparr>m_integer := foldl (\<lambda>w c. w * 10 + of_nat (digit_value c)) (m_integer ?r0) ds,
        m_found_digit := (ds \<noteq> [] \<or> m_found_digit ?r0)\<rparr>,
      s\<lparr>rx := ds @ t # rest, rx := t # rest\<rparr>)"
    using ds by (intro take_digits) (simp_all add: restart_def)
  have w: "foldl (\<lambda>w c. w * 10 + of_nat (digit_value c)) (m_integer ?r0) ds
      = (of_nat (decimal ds) :: 32 word)"
    using word_decimal [of 0 ds] by (simp add: restart_def decimal_def)
  have polls: "integer_polls (length pre + length ds) ?r0 s = (r1, s\<lparr>rx := t # rest\<rparr>)"
    using a b w ds by (simp add: integer_polls_add r1 restart_def)
  have "integer_done r1 (s\<lparr>rx := t # rest\<rparr>)
      = (True, r1\<lparr>m_finished := True\<rparr>, s\<lparr>rx := t # rest, rx := rest\<rparr>)"
    using t by (intro terminator) (simp_all add: r1)
  moreover have "unat (get (r1\<lparr>m_finished := True\<rparr>)) = decimal ds mod 2 ^ 32"
    by (simp add: r1 get_def unat_of_nat)
  ultimately show ?thesis using polls by simp
qed

theorem integer_reader_value_witness:
  "list_all (\<lambda>c. \<not> isdigit c) ''+IPD,'' \<and> ''1460'' \<noteq> [] \<and> list_all isdigit ''1460''
   \<and> \<not> isdigit (CHR '':'')
   \<and> integer_polls (length ''+IPD,'' + length ''1460'')
         (restart \<lparr>m_finished = True, m_found_digit = False, m_integer = 7\<rparr>)
         \<lparr>rx = ''+IPD,1460:HTTP'', tx = []\<rparr>
       = (\<lparr>m_finished = False, m_found_digit = True, m_integer = 1460\<rparr>,
          \<lparr>rx = '':HTTP'', tx = []\<rparr>)
   \<and> integer_done \<lparr>m_finished = False, m_found_digit = True, m_integer = 1460\<rparr>
         \<lparr>rx = '':HTTP'', tx = []\<rparr>
       = (True, \<lparr>m_finished = True, m_found_digit = True, m_integer = 1460\<rparr>,
          \<lparr>rx = ''HTTP'', tx = []\<rparr>)
   \<and> unat (get \<lparr>m_finished = True, m_found_digit = True, m_integer = 1460\<rparr>) = 1460"
  using integer_reader_value [of "''+IPD,''" "''1460''" "CHR '':''"
      "\<lparr>rx = ''+IPD,1460:HTTP'', tx = []\<rparr>" "''HTTP''"
      "\<lparr>m_finished = False, m_found_digit = True, m_integer = 1460\<rparr>"
      "\<lparr>m_finished = True, m_found_digit = False, m_integer = 7\<rparr>"]
  by (simp add: isdigit_def decimal_def digit_value_def get_def)

section \<open>The scan-for-sequence reader (C7)\<close>

lemma advance_le: "i < length sq \<Longrightarrow> advance sq i b \<le> length sq"
  by (simp add: advance_def)

lemma cursor_done: "i = length sq \<Longrightarrow> cursor sq i bs = i"
  by (cases bs) simp_all

lemma cursor_le: "i \<le> length sq \<Longrightarrow> cursor sq i bs \<le> length sq"
proof (induction bs arbitrary: i)
  case Nil
  then show ?case by simp
next
  case (Cons b bs)
  then show ?case by (cases "i = length sq") (simp_all add: advance_le)
qed

lemma continues_occurs: "continues sq 0 bs \<Longrightarrow> occurs sq 0 bs"
  unfolding continues_def occurs_def by (rule exI [of _ 0]) simp

lemma continues_Cons:
  assumes "i < length sq"
  shows "continues sq i (b # bs) \<longleftrightarrow> sq ! i = b \<and> continues sq (Suc i) bs"
proof -
  from assms obtain k where k: "length sq - i = Suc k" "length sq - Suc i = k"
    by (metis Suc_diff_Suc)
  have d: "drop i sq = sq ! i # drop (Suc i) sq"
    using assms by (simp add: Cons_nth_drop_Suc)
  show ?thesis unfolding continues_def k d by auto
qed

lemma occurs_Cons:
  assumes "i < length sq"
  shows "occurs sq i (b # bs) \<longleftrightarrow>
           (i = 0 \<and> continues sq 0 (b # bs)) \<or> occurs sq (advance sq i b) bs"
proof
  assume "occurs sq i (b # bs)"
  then obtain j where j: "j + length sq \<le> length (b # bs)"
    "cursor sq i (take j (b # bs)) = 0" "take (length sq) (drop j (b # bs)) = sq"
    unfolding occurs_def by blast
  show "(i = 0 \<and> continues sq 0 (b # bs)) \<or> occurs sq (advance sq i b) bs"
  proof (cases j)
    case 0
    with j show ?thesis by (simp add: continues_def)
  next
    case (Suc j')
    with j assms have "j' + length sq \<le> length bs"
      "cursor sq (advance sq i b) (take j' bs) = 0" "take (length sq) (drop j' bs) = sq"
      by simp_all
    then have "occurs sq (advance sq i b) bs" unfolding occurs_def by blast
    then show ?thesis ..
  qed
next
  assume "(i = 0 \<and> continues sq 0 (b # bs)) \<or> occurs sq (advance sq i b) bs"
  then show "occurs sq i (b # bs)"
  proof
    assume "i = 0 \<and> continues sq 0 (b # bs)"
    then show ?thesis using continues_occurs by simp
  next
    assume "occurs sq (advance sq i b) bs"
    then obtain j where j: "j + length sq \<le> length bs"
      "cursor sq (advance sq i b) (take j bs) = 0" "take (length sq) (drop j bs) = sq"
      unfolding occurs_def by blast
    show ?thesis unfolding occurs_def
      using j assms by (intro exI [of _ "Suc j"]) simp
  qed
qed

lemma cursor_complete_iff:
  "i \<le> length sq \<Longrightarrow>
   cursor sq i bs = length sq \<longleftrightarrow> continues sq i bs \<or> occurs sq i bs"
proof (induction bs arbitrary: i)
  case Nil
  then show ?case by (auto simp: continues_def occurs_def)
next
  case (Cons b bs)
  show ?case
  proof (cases "i = length sq")
    case True
    then show ?thesis by (simp add: continues_def)
  next
    case False
    with Cons.prems have i: "i < length sq" by simp
    have IH: "cursor sq (advance sq i b) bs = length sq \<longleftrightarrow>
        continues sq (advance sq i b) bs \<or> occurs sq (advance sq i b) bs"
      using i by (intro Cons.IH advance_le)
    show ?thesis
    proof (cases "sq ! i = b")
      case True
      then have "advance sq i b = Suc i" by (simp add: advance_def)
      then show ?thesis using i IH True
        by (auto simp: continues_Cons occurs_Cons)
    next
      case False
      then have "advance sq i b = 0" by (simp add: advance_def)
      then show ?thesis using i IH False continues_occurs [of sq bs]
        by (auto simp: continues_Cons occurs_Cons)
    qed
  qed
qed

lemma cursor_complete:
  "cursor sq 0 bs = length sq \<longleftrightarrow>
     (\<exists>j. j + length sq \<le> length bs \<and> cursor sq 0 (take j bs) = 0
          \<and> take (length sq) (drop j bs) = sq)"
  using cursor_complete_iff [of 0 sq bs] continues_occurs [of sq bs]
  by (auto simp: occurs_def)

text \<open>
  One call of \<open>done()\<close> of a reader whose command can be loaded, and \<open>n\<close> calls:
  no fault, the search index follows \<open>cursor\<close>, and the command is written once,
  by the first call that finds the reader not done.
\<close>

lemma commander_done_loaded:
  assumes "span_load pk rs (m_command c) = Inr cmd"
    and "m_search_index c \<le> length (m_sequence c)"
  shows "\<exists>c' s'. commander_done pk rs c s
             = Inr (m_search_index c = length (m_sequence c), c', s')
           \<and> m_command c' = m_command c \<and> m_sequence c' = m_sequence c
           \<and> m_search_index c' = cursor (m_sequence c) (m_search_index c) (take 1 (rx s))
           \<and> rx s' = (if m_search_index c = length (m_sequence c) then rx s
                      else drop 1 (rx s))
           \<and> (m_sent_command c' \<longleftrightarrow>
                m_sent_command c \<or> m_search_index c \<noteq> length (m_sequence c))
           \<and> tx s' = (if \<not> m_sent_command c \<and> m_search_index c \<noteq> length (m_sequence c)
                      then tx s @ cmd else tx s)"
proof (cases "m_search_index c = length (m_sequence c)")
  case True
  then show ?thesis using assms by (simp add: commander_done_def cursor_done)
next
  case False
  then show ?thesis using assms
    by (cases "rx s") (auto simp: commander_done_def send_command_def serial_defs)
qed

lemma commander_polls_loaded:
  assumes "span_load pk rs (m_command c) = Inr cmd"
    and "m_search_index c \<le> length (m_sequence c)"
  shows "\<exists>c' s'. commander_polls n pk rs c s = Inr (c', s')
           \<and> m_command c' = m_command c \<and> m_sequence c' = m_sequence c
           \<and> m_search_index c' = cursor (m_sequence c) (m_search_index c) (take n (rx s))
           \<and> (m_sent_command c' \<longleftrightarrow>
                m_sent_command c \<or> (0 < n \<and> m_search_index c \<noteq> length (m_sequence c)))
           \<and> tx s' = (if \<not> m_sent_command c \<and> 0 < n
                          \<and> m_search_index c \<noteq> length (m_sequence c)
                      then tx s @ cmd else tx s)"
  using assms
proof (induction n arbitrary: c s)
  case 0
  then show ?case by simp
next
  case (Suc n)
  let ?T = "m_sequence c" and ?i = "m_search_index c"
  from commander_done_loaded [OF Suc.prems, of s]
  obtain c1 s1 where d: "commander_done pk rs c s = Inr (?i = length ?T, c1, s1)"
    and c1: "m_command c1 = m_command c" "m_sequence c1 = ?T"
      "m_search_index c1 = cursor ?T ?i (take 1 (rx s))"
    and s1: "rx s1 = (if ?i = length ?T then rx s else drop 1 (rx s))"
    and sent1: "m_sent_command c1 \<longleftrightarrow> m_sent_command c \<or> ?i \<noteq> length ?T"
    and tx1: "tx s1 = (if \<not> m_sent_command c \<and> ?i \<noteq> length ?T then tx s @ cmd else tx s)"
    by blast
  have ld: "span_load pk rs (m_command c1) = Inr cmd" using Suc.prems(1) by (simp add: c1)
  have le: "m_search_index c1 \<le> length (m_sequence c1)"
    using Suc.prems(2) by (simp add: c1 cursor_le)
  from Suc.IH [OF ld le, of s1]
  obtain c' s' where p: "commander_polls n pk rs c1 s1 = Inr (c', s')"
    and c': "m_command c' = m_command c1" "m_sequence c' = m_sequence c1"
      "m_search_index c' = cursor (m_sequence c1) (m_search_index c1) (take n (rx s1))"
    and sent': "m_sent_command c' \<longleftrightarrow>
        m_sent_command c1 \<or> (0 < n \<and> m_search_index c1 \<noteq> length (m_sequence c1))"
    and tx': "tx s' = (if \<not> m_sent_command c1 \<and> 0 < n
                          \<and> m_search_index c1 \<noteq> length (m_sequence c1)
                      then tx s1 @ cmd else tx s1)"
    by blast
  have ix: "cursor ?T (cursor ?T ?i (take 1 (rx s))) (take n (rx s1))
      = cursor ?T ?i (take (Suc n) (rx s))"
  proof (cases "?i = length ?T")
    case True
    then show ?thesis by (simp add: cursor_done)
  next
    case False
    then show ?thesis by (cases "rx s") (simp_all add: s1)
  qed
  have fx: "(m_sent_command c' \<longleftrightarrow> m_sent_command c \<or> ?i \<noteq> length ?T)
      \<and> tx s' = (if \<not> m_sent_command c \<and> ?i \<noteq> length ?T then tx s @ cmd else tx s)"
  proof (cases "?i = length ?T")
    case True
    then have "m_search_index c1 = length (m_sequence c1)" by (simp add: c1 cursor_done)
    then show ?thesis using True sent1 sent' tx1 tx' by simp
  next
    case False
    then show ?thesis using sent1 sent' tx1 tx' by simp
  qed
  show ?case using d p c' c1 ix fx by simp
qed

text \<open>
  C7: a reader started by \<open>new_search\<close> with a command that can be loaded, on a
  line that holds the stream \<open>S\<close>, takes one byte with each call. After \<open>n\<close> calls
  its index is the cursor over the first \<open>n\<close> bytes, the command is on the line once
  if it was sent, and the next call returns true exactly when the sequence occurs in
  those bytes from a position where the cursor is 0. A byte that matches moves the
  index on by one, any other byte sets it to 0, and the byte is consumed either way.
  A reader whose index is the size of its sequence returns true and leaves itself and
  the serial device as they are; a reader with an empty sequence does so on its
  first call, before it writes its command.
\<close>

theorem scan_for_sequence:
  "(span_load pk rs p = Inr cmd \<longrightarrow>
      (\<exists>c' s' fin c'' s''.
         commander_polls n pk rs (new_search p T c) (s\<lparr>rx := S\<rparr>) = Inr (c', s')
       \<and> m_search_index c' = cursor T 0 (take n S)
       \<and> tx s' = (if m_sent_command c' then tx s @ cmd else tx s)
       \<and> commander_done pk rs c' s' = Inr (fin, c'', s'')
       \<and> (fin \<longleftrightarrow>
            (\<exists>j. j + length T \<le> length (take n S) \<and> cursor T 0 (take j (take n S)) = 0
                 \<and> take (length T) (drop j (take n S)) = T))))
   \<and> (m_sent_command c1 \<and> m_search_index c1 < length (m_sequence c1) \<and> rx s1 = b # rest \<longrightarrow>
        commander_done pk rs c1 s1
          = Inr (False,
                 c1\<lparr>m_search_index :=
                      (if m_sequence c1 ! m_search_index c1 = b then m_search_index c1 + 1 else 0)\<rparr>,
                 s1\<lparr>rx := rest\<rparr>))
   \<and> (m_search_index c2 = length (m_sequence c2) \<longrightarrow>
        commander_done pk rs c2 s2 = Inr (True, c2, s2))
   \<and> commander_done pk rs (new_search p_command [] c) s = Inr (True, new_search p_command [] c, s)"
proof -
  let ?c0 = "new_search p T c" and ?s0 = "s\<lparr>rx := S\<rparr>"
  have first: "\<exists>c' s' fin c'' s''.
       commander_polls n pk rs ?c0 ?s0 = Inr (c', s')
     \<and> m_search_index c' = cursor T 0 (take n S)
     \<and> tx s' = (if m_sent_command c' then tx s @ cmd else tx s)
     \<and> commander_done pk rs c' s' = Inr (fin, c'', s'')
     \<and> (fin \<longleftrightarrow>
          (\<exists>j. j + length T \<le> length (take n S) \<and> cursor T 0 (take j (take n S)) = 0
               \<and> take (length T) (drop j (take n S)) = T))"
    if ld: "span_load pk rs p = Inr cmd"
  proof -
    have c0: "span_load pk rs (m_command ?c0) = Inr cmd"
      "m_search_index ?c0 \<le> length (m_sequence ?c0)"
      using ld by (simp_all add: new_search_def)
    have c0': "m_sequence ?c0 = T" "m_search_index ?c0 = 0" "\<not> m_sent_command ?c0"
      "m_command ?c0 = p"
      by (simp_all add: new_search_def)
    from commander_polls_loaded [OF c0, of n ?s0]
    obtain c' s' where p: "commander_polls n pk rs ?c0 ?s0 = Inr (c', s')"
      and raw: "m_command c' = m_command ?c0" "m_sequence c' = m_sequence ?c0"
        "m_search_index c' = cursor (m_sequence ?c0) (m_search_index ?c0) (take n (rx ?s0))"
        "m_sent_command c' \<longleftrightarrow>
           m_sent_command ?c0 \<or> (0 < n \<and> m_search_index ?c0 \<noteq> length (m_sequence ?c0))"
        "tx s' = (if \<not> m_sent_command ?c0 \<and> 0 < n
                     \<and> m_search_index ?c0 \<noteq> length (m_sequence ?c0)
                  then tx ?s0 @ cmd else tx ?s0)"
      by blast
    have c': "m_command c' = p" "m_sequence c' = T"
      "m_search_index c' = cursor T 0 (take n S)"
      using raw(1-3) by (simp_all add: c0')
    have tx: "tx s' = (if m_sent_command c' then tx s @ cmd else tx s)"
      using raw(4,5) by (simp add: c0')
    have le: "m_search_index c' \<le> length (m_sequence c')"
      by (simp add: c' cursor_le)
    have ld': "span_load pk rs (m_command c') = Inr cmd" using ld by (simp add: c')
    from commander_done_loaded [OF ld' le, of s']
    obtain c'' s'' where d: "commander_done pk rs c' s'
        = Inr (cursor T 0 (take n S) = length T, c'', s'')"
      by (auto simp: c')
    show ?thesis
      using p c'(3) tx d cursor_complete [of T "take n S"] by blast
  qed
  have step: "m_sent_command c1 \<and> m_search_index c1 < length (m_sequence c1) \<and> rx s1 = b # rest \<longrightarrow>
        commander_done pk rs c1 s1
          = Inr (False,
                 c1\<lparr>m_search_index :=
                      (if m_sequence c1 ! m_search_index c1 = b then m_search_index c1 + 1 else 0)\<rparr>,
                 s1\<lparr>rx := rest\<rparr>)"
    by (auto simp: commander_done_def send_command_def serial_defs advance_def)
  have sticky: "m_search_index c2 = length (m_sequence c2) \<longrightarrow>
        commander_done pk rs c2 s2 = Inr (True, c2, s2)"
    by (simp add: commander_done_def)
  have empty: "commander_done pk rs (new_search p_command [] c) s
      = Inr (True, new_search p_command [] c, s)"
    by (simp add: commander_done_def new_search_def)
  from first step sticky empty show ?thesis by blast
qed

theorem scan_for_sequence_witness:
  "span_load [] [] (literal ''AT'') = Inr ''AT''
   \<and> (\<exists>c' s' c'' s''.
       commander_polls 9 [] [] (new_search (literal ''AT'') (''OK'' @ crlf) ok_search)
         (\<lparr>rx = [], tx = []\<rparr>\<lparr>rx := ''OOK'' @ crlf @ ''OK'' @ crlf\<rparr>) = Inr (c', s')
     \<and> commander_done [] [] c' s' = Inr (True, c'', s''))
   \<and> m_sent_command (ok_search\<lparr>m_sent_command := True\<rparr>)
   \<and> m_search_index (ok_search\<lparr>m_sent_command := True\<rparr>)
       < length (m_sequence (ok_search\<lparr>m_sent_command := True\<rparr>))
   \<and> rx \<lparr>rx = ''OK'', tx = []\<rparr> = CHR ''O'' # ''K''
   \<and> commander_done [] [] (ok_search\<lparr>m_sent_command := True\<rparr>) \<lparr>rx = ''OK'', tx = []\<rparr>
       = Inr (False, ok_search\<lparr>m_sent_command := True, m_search_index := 1\<rparr>,
              \<lparr>rx = ''K'', tx = []\<rparr>)
   \<and> m_search_index (ok_search\<lparr>m_search_index := 4\<rparr>)
       = length (m_sequence (ok_search\<lparr>m_search_index := 4\<rparr>))
   \<and> commander_done [] [] (ok_search\<lparr>m_search_index := 4\<rparr>) \<lparr>rx = ''K'', tx = []\<rparr>
       = Inr (True, ok_search\<lparr>m_search_index := 4\<rparr>, \<lparr>rx = ''K'', tx = []\<rparr>)"
proof -
  let ?T = "''OK'' @ crlf" and ?S = "''OOK'' @ crlf @ ''OK'' @ crlf"
  let ?c1 = "ok_search\<lparr>m_sent_command := True\<rparr>" and ?c2 = "ok_search\<lparr>m_search_index := 4\<rparr>"
  note t = scan_for_sequence [where n = 9 and pk = "[]" and rs = "[]" and p = "literal ''AT''"
      and cmd = "''AT''" and T = ?T and c = ok_search and s = "\<lparr>rx = [], tx = []\<rparr>" and S = ?S
      and ?c1.0 = ?c1 and ?s1.0 = "\<lparr>rx = ''OK'', tx = []\<rparr>" and b = "CHR ''O''" and rest = "''K''"
      and ?c2.0 = ?c2 and ?s2.0 = "\<lparr>rx = ''K'', tx = []\<rparr>" and p_command = "literal []"]
  have occ: "\<exists>j. j + length ?T \<le> length (take 9 ?S) \<and> cursor ?T 0 (take j (take 9 ?S)) = 0
      \<and> take (length ?T) (drop j (take 9 ?S)) = ?T"
    by (rule exI [of _ 5]) (simp add: advance_def)
  have h0: "span_load [] [] (literal ''AT'') = Inr ''AT''"
    by simp
  have h1: "m_sent_command ?c1 \<and> m_search_index ?c1 < length (m_sequence ?c1)
      \<and> rx \<lparr>rx = ''OK'', tx = []\<rparr> = CHR ''O'' # ''K''"
    by (simp add: ok_search_def)
  have h2: "m_search_index ?c2 = length (m_sequence ?c2)"
    by (simp add: ok_search_def)
  from t [THEN conjunct1, THEN mp, OF h0]
  obtain c' s' fin c'' s'' where
    p: "commander_polls 9 [] [] (new_search (literal ''AT'') ?T ok_search)
         (\<lparr>rx = [], tx = []\<rparr>\<lparr>rx := ?S\<rparr>) = Inr (c', s')"
    and d: "commander_done [] [] c' s' = Inr (fin, c'', s'')"
    and f: "fin \<longleftrightarrow> (\<exists>j. j + length ?T \<le> length (take 9 ?S)
        \<and> cursor ?T 0 (take j (take 9 ?S)) = 0 \<and> take (length ?T) (drop j (take 9 ?S)) = ?T)"
    by blast
  from f occ have fin ..
  with p d have "\<exists>c' s' c'' s''.
       commander_polls 9 [] [] (new_search (literal ''AT'') ?T ok_search)
         (\<lparr>rx = [], tx = []\<rparr>\<lparr>rx := ?S\<rparr>) = Inr (c', s')
     \<and> commander_done [] [] c' s' = Inr (True, c'', s'')"
    by auto
  moreover from t [THEN conjunct2, THEN conjunct1] h1
  have "commander_done [] [] ?c1 \<lparr>rx = ''OK'', tx = []\<rparr>
       = Inr (False, ok_search\<lparr>m_sent_command := True, m_search_index := 1\<rparr>,
              \<lparr>rx = ''K'', tx = []\<rparr>)"
    by (simp add: ok_search_def)
  moreover from t [THEN conjunct2, THEN conjunct2, THEN conjunct1] h2
  have "commander_done [] [] ?c2 \<lparr>rx = ''K'', tx = []\<rparr>
       = Inr (True, ?c2, \<lparr>rx = ''K'', tx = []\<rparr>)"
    by (rule mp)
  ultimately show ?thesis using h0 h1 h2 by blast
qed

section \<open>The terminal phases (C9)\<close>

lemma on_preparing_request_state: "m_state (on_preparing_request d) = m_state d"
  by (simp add: on_preparing_request_def on_sending_request_def search_def write_string_def
      Let_def split: prod.splits)

lemma on_parsing_header_state: "on_parsing_header d = Inr d' \<Longrightarrow> m_state d' = m_state d"
  by (auto simp: on_parsing_header_def copy_to_response_def Let_def
      split: sum.splits if_splits)

lemma transition_state_state: "transition_state d = Inr d' \<Longrightarrow> m_state d' = m_state d"
  by (cases "m_state d")
    (auto simp: transition_state_def search_def on_attempting_ap_connection_def
      on_connecting_to_server_def on_sending_request_def on_get_next_packet_def
      write_string_def Let_def on_preparing_request_state on_parsing_header_state)

lemma poll_reader_state:
  "poll_reader d = Inr d' \<Longrightarrow> m_read_state d \<noteq> read_complete \<Longrightarrow> m_state d' = m_state d"
  by (cases "m_read_state d") (auto simp: poll_reader_def split: sum.splits prod.splits)

lemma terminal_entry:
  assumes "get_status d0 = Inr d" and "m_state d0 \<notin> {complete, failure}"
    and "m_state d \<in> {complete, failure}"
  shows "m_read_state d = read_complete \<and> m_next_state d = m_state d"
proof -
  obtain d1 where d1: "(if m_state d0 = reset then transition_state d0 else Inr d0) = Inr d1"
    and p: "poll_reader d1 = Inr d"
    using assms(1) by (auto simp: get_status_def split: sum.splits)
  have s1: "m_state d1 = m_state d0"
    using d1 by (auto split: if_splits dest: transition_state_state)
  have rc: "m_read_state d1 = read_complete"
  proof (rule ccontr)
    assume "m_read_state d1 \<noteq> read_complete"
    then have "m_state d = m_state d0" using poll_reader_state [OF p] s1 by simp
    then show False using assms(2,3) by simp
  qed
  then have t: "transition_state (d1\<lparr>m_state := m_next_state d1\<rparr>) = Inr d"
    using p by (simp add: poll_reader_def)
  from transition_state_state [OF t] have n: "m_next_state d1 = m_state d" by simp
  then have "transition_state (d1\<lparr>m_state := m_next_state d1\<rparr>) = Inr (d1\<lparr>m_state := m_next_state d1\<rparr>)"
    using assms(3) by (auto simp: transition_state_def)
  with t have e: "d = d1\<lparr>m_state := m_next_state d1\<rparr>" by simp
  show ?thesis using rc by (simp add: e)
qed

lemma terminal_fixed:
  assumes "m_state d \<in> {complete, failure}" and "m_read_state d = read_complete"
    and "m_next_state d = m_state d"
  shows "get_status d = Inr d"
  using assms by (auto simp: get_status_def poll_reader_def transition_state_def)

text \<open>
  C9: on the call of \<open>get_status\<close> that makes the phase \<open>complete\<close> or \<open>failure\<close>,
  the driver it returns is one that any number of further calls return unchanged:
  the phase, the response buffer, the three readers and the serial device all stay as
  they are.
\<close>

theorem terminal_phases_sticky:
  assumes "get_status d0 = Inr d" and "m_state d0 \<notin> {complete, failure}"
    and "m_state d \<in> {complete, failure}"
  shows "polls n d = Inr d"
proof -
  have "get_status d = Inr d"
    using terminal_entry [OF assms] assms(3) by (intro terminal_fixed) simp_all
  then show ?thesis by (induction n) simp_all
qed


theorem terminal_phases_sticky_witness:
  "get_status closing = Inr (closing\<lparr>m_state := complete\<rparr>)
   \<and> m_state closing \<notin> {complete, failure}
   \<and> m_state (closing\<lparr>m_state := complete\<rparr>) \<in> {complete, failure}
   \<and> polls 3 (closing\<lparr>m_state := complete\<rparr>) = Inr (closing\<lparr>m_state := complete\<rparr>)"
proof -
  have a: "get_status closing = Inr (closing\<lparr>m_state := complete\<rparr>)"
    by (simp add: closing_def get_status_def poll_reader_def transition_state_def)
  have b: "m_state closing \<notin> {complete, failure}"
    and c: "m_state (closing\<lparr>m_state := complete\<rparr>) \<in> {complete, failure}"
    by (simp_all add: closing_def)
  from terminal_phases_sticky [OF a b c, of 3] a b c show ?thesis by simp
qed

section \<open>The request pipeline (C1, C2, C5, C6)\<close>

text \<open>
  C1 does not hold of the code. The case \<open>preparing_request\<close> sets the next phase to
  \<open>sending_request\<close> and installs the search for \<open>OK\<close>, and then falls through into
  the case \<open>sending_request\<close>, which overwrites both: whatever the driver,
  \<open>sending_request\<close> is not the next phase. In the run of the example request the
  entry into \<open>preparing_request\<close> leaves the next phase \<open>get_first_packet_length\<close>
  and the terminator \<open>+IPD,\<close>; and when the line then carries \<open>+IPD,\<close> and no
  \<open>OK\<close>, seven polls send the request and enter \<open>get_first_packet_length\<close>.
\<close>

theorem preparing_request_falls_through:
  "m_next_state (on_preparing_request d) \<noteq> sending_request
   \<and> ends_with (\<lambda>d. m_state d = preparing_request \<and> m_next_state d = get_first_packet_length
                  \<and> m_read_state d = until_sequence
                  \<and> m_sequence (m_commander d) = ''+IPD,''
                  \<and> m_command (m_commander d) = response_span 0 42
                  \<and> tx (m_serial d) = connection_log @ ''AT+CIPSEND=42'' @ crlf)
       (run (association @ start_request example_request) (fresh 64))
   \<and> ends_with (\<lambda>d. m_state d = get_first_packet_length
                  \<and> tx (m_serial d)
                      = connection_log @ ''AT+CIPSEND=42'' @ crlf @ http_request example_request)
       (run (association @ start_request example_request @ [Receive ''+IPD,'', Poll 7])
          (fresh 64))"
proof -
  have "m_next_state (on_preparing_request d) \<noteq> sending_request"
    by (simp add: on_preparing_request_def on_sending_request_def search_def write_string_def
        Let_def split: prod.splits)
  then show ?thesis by (simp add: run_defs)
qed

text \<open>
  C2 does not hold of the code. \<open>request\<close> sets the next phase to
  \<open>connecting_to_server\<close> and then calls \<open>transition_state\<close>, which runs the case of
  the current phase and, in a phase with an action, sets the next phase again. A
  request made while the driver awaits the length of the first packet restarts the
  integer reader and leaves the next phase \<open>reading_first_packet\<close>; the transaction
  in flight then runs to \<open>complete\<close>, and no \<open>AT+CIPSTART\<close> for the new request is
  ever written.
\<close>

theorem request_in_flight_is_not_sent:
  "ends_with (\<lambda>d. m_state d = get_first_packet_length \<and> m_request d = other_request
                  \<and> m_next_state d = reading_first_packet)
     (run (association @ awaiting_length @ [Request other_request]) (fresh 64))
   \<and> ends_with (\<lambda>d. m_state d = complete \<and> m_request d = other_request
                  \<and> take 5 (response d) = ''hello''
                  \<and> tx (m_serial d)
                      = connection_log @ ''AT+CIPSEND=42'' @ crlf @ http_request example_request
                        @ ''AT+CIPCLOSE'' @ crlf)
     (run (association @ awaiting_length
           @ [Request other_request,
              Receive (''43:'' @ hello_packet), Poll 9, Receive (''OK'' @ crlf), Poll 6])
        (fresh 64))"
  by (simp add: run_defs)

text \<open>
  Where the current phase has no action (\<open>connected_to_ap\<close>, \<open>complete\<close>,
  \<open>failure\<close>) and no reader is active, the next \<open>get_status\<close> does enter
  \<open>connecting_to_server\<close> and writes \<open>AT+CIPSTART\<close> for the request.
\<close>

lemma request_when_idle:
  assumes "m_state d \<in> {connected_to_ap, complete, failure}"
    and "m_read_state d = read_complete"
  shows "\<exists>d1 d2. request r d = Inr d1 \<and> get_status d1 = Inr d2
           \<and> m_state d2 = connecting_to_server \<and> m_request d2 = r
           \<and> tx (m_serial d2)
               = tx (m_serial d) @ ''AT+CIPSTART='' @ [dquote] @ ''TCP'' @ [dquote] @ '',''
                 @ [dquote] @ domain r @ [dquote] @ '','' @ port r"
  using assms
  by (auto simp: request_def get_status_def poll_reader_def transition_state_def
      on_connecting_to_server_def write_string_def search_def serial_defs Let_def)

text \<open>
  The one formatting failure the code detects is a negative return value: the next
  phase is then \<open>close_connection_failure\<close> and nothing is written.
\<close>

lemma negative_length_detected:
  assumes "2 ^ 31 \<le> length (http_request (m_request d))"
  shows "on_preparing_request d
           = d\<lparr>m_request_length := - 1, m_next_state := close_connection_failure\<rparr>"
  using assms by (simp add: on_preparing_request_def snprintf_def)

text \<open>
  C5 does not hold of the code where the formatted request is longer than the
  response buffer. \<open>snprintf\<close> then returns the length the text would have had, which
  is not negative, and the only check is \<open>m_request_length < 0\<close>. With a buffer of 16
  bytes the request of 42 bytes is cut, \<open>AT+CIPSEND=42\<close> is written, the next phase
  is \<open>get_first_packet_length\<close>, and the command to send is a span of 42 bytes over
  the 16: the next \<open>get_status\<close> reads past the buffer.
\<close>

theorem formatting_overflow_not_detected:
  "ends_with (\<lambda>d. m_state d = preparing_request \<and> length (m_response d) = 16
                  \<and> m_request_length d = 42
                  \<and> m_next_state d = get_first_packet_length
                  \<and> m_command (m_commander d) = response_span 0 42
                  \<and> tx (m_serial d) = connection_log @ ''AT+CIPSEND=42'' @ crlf
                  \<and> get_status d = Inl OutOfBounds)
     (run (association @ start_request example_request) (fresh 16))"
  by (simp add: run_defs)

text \<open>
  C6 does not hold of the code. \<open>change_access_point\<close> stores the credentials and
  sets the next phase to \<open>connected_to_ap\<close>, not to \<open>attempting_ap_connection\<close>: an
  associated driver stays in \<open>connected_to_ap\<close>, \<open>get_status\<close> leaves it as it is,
  and the only \<open>AT+CWJAP_CUR\<close> on the line is the one with the old credentials.
\<close>

theorem change_access_point_stays_connected:
  "ends_with (\<lambda>d. m_state d = connected_to_ap \<and> m_ssid d = ''net2'' \<and> m_password d = ''pw2''
                  \<and> tx (m_serial d) = association_log \<and> get_status d = Inr d)
     (run (association @ [ChangeAccessPoint ''net2'' ''pw2'', Poll 5]) (fresh 64))"
  by (simp add: run_defs)

section \<open>The first packet (C3)\<close>

text \<open>
  C3 does not hold of the code. The case \<open>parsing_header\<close> does not compare the
  lengths of the header and the body with the announced count \<open>N\<close>; it asks whether
  \<open>N\<close> is below 1460. A first packet of 40 bytes holds the header of 38 bytes and
  two of the five bytes of the body: the driver goes to \<open>close_connection\<close>, copies
  five bytes of the packet array, of which three were never received, takes the frame
  with the rest of the body for noise before \<open>OK\<close>, and ends in \<open>complete\<close>. A
  first packet of 1460 bytes holds the header and the whole body: the driver goes to
  \<open>get_packet_length\<close> with the write position at the content length, and waits
  there for a frame that does not come. The case \<open>get_next_packet\<close> of the same
  switch closes when the write position has reached the content length.
\<close>

theorem first_packet_rule_misjudges:
  "ends_with (\<lambda>d. m_state d = parsing_header \<and> m_next_state d = close_connection
                  \<and> unat (get (m_integer_reader d)) = 40
                  \<and> content_length (m_header d) + header_length (m_header d) = 43)
     (run (association @ first_packet ''40'' (take 40 hello_packet)) (fresh 64))
   \<and> ends_with (\<lambda>d. m_state d = complete \<and> content_length (m_header d) = 5
                  \<and> take 5 (m_response d) = ''he'' @ replicate 3 NUL
                  \<and> rx (m_serial d) = [])
     (run (association @ first_packet ''40'' (take 40 hello_packet)
           @ [Poll 2, Receive (''+IPD,3:llo'' @ ''OK'' @ crlf), Poll 16])
        (fresh 64))
   \<and> ends_with (\<lambda>d. m_state d = parsing_header \<and> m_next_state d = get_packet_length
                  \<and> unat (get (m_integer_reader d)) = 1460
                  \<and> content_length (m_header d) + header_length (m_header d) = 1460)
     (run (association @ start_request example_request
           @ [Receive (''OK'' @ crlf), Poll 1,
              Receive (''+IPD,1460:'' @ full_packet), Poll 19])
        (fresh 1460))
   \<and> ends_with (\<lambda>d. m_state d = get_packet_length
                  \<and> unat (m_response_position d) = content_length (m_header d)
                  \<and> take 1419 (m_response d) = replicate 1419 (CHR ''x'')
                  \<and> rx (m_serial d) = [] \<and> get_status d = Inr d)
     (run (association @ start_request example_request
           @ [Receive (''OK'' @ crlf), Poll 1,
              Receive (''+IPD,1460:'' @ full_packet), Poll 21])
        (fresh 1460))"
  by (simp add: run_defs)

text \<open>
  For every driver that enters \<open>parsing_header\<close> with a valid header \<open>h\<close> whose
  content length fits the response buffer: the decision of the code depends on
  \<open>N\<close> alone.
\<close>

lemma parsing_header_decides_by_count:
  assumes st: "m_state d = parsing_header"
    and hd: "response_header_from_string (m_packet d) = Inr h"
    and valid: "is_valid h"
    and fits: "content_length h \<le> length (m_response d)"
    and N: "N = unat (get (m_integer_reader d))"
  shows "(N < 1460 \<and> header_length h + content_length h \<le> length (m_packet d) \<longrightarrow>
           transition_state d
             = Inr (d\<lparr>m_header := h,
                     m_response := take (content_length h) (drop (header_length h) (m_packet d))
                                   @ drop (content_length h) (m_response d),
                     m_next_state := close_connection\<rparr>))
     \<and> (1460 \<le> N \<and> N \<le> length (m_packet d) \<and> header_length h \<le> N
          \<and> N - header_length h \<le> length (m_response d) \<longrightarrow>
           transition_state d
             = Inr (d\<lparr>m_header := h,
                     m_response := take (N - header_length h) (drop (header_length h) (m_packet d))
                                   @ drop (N - header_length h) (m_response d),
                     m_response_position := of_nat (N - header_length h),
                     m_next_state := get_packet_length\<rparr>))
     \<and> (\<forall>d'. transition_state d = Inr d' \<longrightarrow>
           (m_next_state d' = close_connection \<longleftrightarrow> N < 1460))"
proof -
  have nz: "content_length h \<noteq> 0" using valid by (simp add: is_valid_def)
  have t: "transition_state d = on_parsing_header d" using st by (simp add: transition_state_def)
  have a: "N < 1460 \<and> header_length h + content_length h \<le> length (m_packet d) \<longrightarrow>
           transition_state d
             = Inr (d\<lparr>m_header := h,
                     m_response := take (content_length h) (drop (header_length h) (m_packet d))
                                   @ drop (content_length h) (m_response d),
                     m_next_state := close_connection\<rparr>)"
    using hd valid fits N nz
    by (auto simp: t on_parsing_header_def copy_to_response_def load_def store_def
        maximum_response_packet_size_def Let_def)
  have b: "1460 \<le> N \<and> N \<le> length (m_packet d) \<and> header_length h \<le> N
          \<and> N - header_length h \<le> length (m_response d) \<longrightarrow>
           transition_state d
             = Inr (d\<lparr>m_header := h,
                     m_response := take (N - header_length h) (drop (header_length h) (m_packet d))
                                   @ drop (N - header_length h) (m_response d),
                     m_response_position := of_nat (N - header_length h),
                     m_next_state := get_packet_length\<rparr>)"
  proof (intro impI, elim conjE)
    assume big: "1460 \<le> N" and pk: "N \<le> length (m_packet d)" and hl: "header_length h \<le> N"
      and rs: "N - header_length h \<le> length (m_response d)"
    have "N < 2 ^ 32"
      using unsigned_less [of "get (m_integer_reader d)", where ?'a = nat] by (simp add: N)
    then have "N - header_length h < (2 :: nat) ^ 64"
      by (rule order.strict_trans1 [OF diff_le_self, THEN order.strict_trans]) simp
    moreover have "(2 :: nat) ^ 64 + N - header_length h = (N - header_length h) + 2 ^ 64"
      using hl by simp
    ultimately have br: "(2 ^ 64 + N - header_length h) mod 2 ^ 64 = N - header_length h"
      by (simp only: mod_add_self2 mod_less)
    show "transition_state d
             = Inr (d\<lparr>m_header := h,
                     m_response := take (N - header_length h) (drop (header_length h) (m_packet d))
                                   @ drop (N - header_length h) (m_response d),
                     m_response_position := of_nat (N - header_length h),
                     m_next_state := get_packet_length\<rparr>)"
      using hd valid fits big pk hl rs br
      by (auto simp: t on_parsing_header_def copy_to_response_def load_def store_def
          maximum_response_packet_size_def Let_def N [symmetric])
  qed
  have c: "\<forall>d'. transition_state d = Inr d' \<longrightarrow>
           (m_next_state d' = close_connection \<longleftrightarrow> N < 1460)"
    using hd valid fits N
    by (auto simp: t on_parsing_header_def copy_to_response_def 
        maximum_response_packet_size_def Let_def split: sum.splits)
  from a b c show ?thesis by blast
qed

section \<open>The destinations of the fixed-length reads (C10)\<close>

text \<open>An index below \<open>2 ^ 31\<close> survives the way through the \<open>int\<close>.\<close>

lemma read_offset_of_nat:
  assumes "n < 2 ^ 31"
  shows "size_t_of_int (sint (of_nat (n mod 2 ^ 64) :: 32 word)) = n"
proof -
  have "n mod 2 ^ 64 = n" using assms by simp
  moreover have "sint (of_nat n :: 32 word) = int n"
    using assms by (simp add: signed_of_nat signed_take_bit_int_eq_self)
  ultimately show ?thesis using assms by (simp add: size_t_of_int_def)
qed

lemma read_offset_update:
  assumes "n < 2 ^ 31"
  shows "read_offset (r\<lparr>m_read_index := of_nat (n mod 2 ^ 64)\<rparr>) = n"
proof -
  have "m_read_index (r\<lparr>m_read_index := w\<rparr>) = w" for w by simp
  then show ?thesis unfolding read_offset_def using assms by (simp only: read_offset_of_nat)
qed

lemma store_within:
  assumes "off + i + length bs \<le> off + n" and "off + n \<le> length mem"
  shows "\<exists>mem'. store mem (off + i) bs = Inr mem' \<and> length mem' = length mem
           \<and> take off mem' = take off mem \<and> drop (off + n) mem' = drop (off + n) mem"
  using assms by (auto simp: store_def add.commute)

lemma reader_done_in_bounds:
  assumes "span_in_bounds pk rs (m_memory r)" and "read_offset r \<le> span_size (m_memory r)"
    and "span_size (m_memory r) < 2 ^ 31"
  shows "\<exists>fin r' s' pk' rs'.
           reader_done pk rs r s = Inr (fin, r', s', pk', rs')
         \<and> m_memory r' = m_memory r \<and> read_offset r' \<le> span_size (m_memory r')
         \<and> writes_within (m_memory r) pk rs pk' rs'
         \<and> span_in_bounds pk' rs' (m_memory r')"
proof (cases "read_offset r = span_size (m_memory r)")
  case True
  then show ?thesis using assms(1) by (cases "m_memory r") (auto simp: reader_done_def)
next
  case False
  let ?i = "read_offset r"
  let ?k = "span_size (m_memory r) - ?i"
  let ?bs = "take ?k (rx s)"
  let ?r = "r\<lparr>m_read_index := of_nat ((?i + length ?bs) mod 2 ^ 64)\<rparr>"
  have len: "?i + length ?bs \<le> span_size (m_memory r)"
    using assms(2) by simp
  then have "?i + length ?bs < 2 ^ 31" using assms(3) by simp
  then have off: "read_offset ?r = ?i + length ?bs"
    by (rule read_offset_update)
  have lt: "?i < span_size (m_memory r)" using False assms(2) by simp
  show ?thesis
  proof (cases "m_memory r")
    case (literal xs)
    then show ?thesis using False assms by simp
  next
    case (packet_span off n)
    with assms len have "off + ?i + length ?bs \<le> off + n" "off + n \<le> length pk"
      by simp_all
    from store_within [OF this] obtain pk' where
      "store pk (off + ?i) ?bs = Inr pk'" "length pk' = length pk"
      "take off pk' = take off pk" "drop (off + n) pk' = drop (off + n) pk"
      by blast
    then show ?thesis using False lt len off assms(1) packet_span
      by (auto simp: reader_done_def serial_read_def)
  next
    case (response_span off n)
    with assms len have "off + ?i + length ?bs \<le> off + n" "off + n \<le> length rs"
      by simp_all
    from store_within [OF this] obtain rs' where
      "store rs (off + ?i) ?bs = Inr rs'" "length rs' = length rs"
      "take off rs' = take off rs" "drop (off + n) rs' = drop (off + n) rs"
      by blast
    then show ?thesis using False lt len off assms(1) response_span
      by (auto simp: reader_done_def serial_read_def)
  qed
qed

lemma reader_done_out_of_bounds:
  assumes "\<not> span_in_bounds pk rs (m_memory r)" and "m_read_index r = 0"
    and "0 < span_size (m_memory r)" and "span_size (m_memory r) \<le> length (rx s)"
  shows "reader_done pk rs r s = Inl OutOfBounds"
  using assms
  by (cases "m_memory r")
    (auto simp: reader_done_def read_offset_def size_t_of_int_def serial_read_def store_def)

text \<open>
  C10, as stated, fails for a destination of \<open>2 ^ 31\<close> bytes or more, because the
  index of the reader is an \<open>int\<close>. With a response buffer of 2147483648 bytes, the
  write position 0 and the announced length 2147483648, the destination is the whole
  buffer and lies inside it. The first read fills it; the index is then
  \<open>- 2147483648\<close>, which as a \<open>size_t\<close> is no size of the span, and the next call
  takes a subspan from far outside the buffer.
\<close>

theorem read_index_wraps:
  "ends_with (\<lambda>d. m_state d = read_packet_into_response \<and> m_read_state d = into_buffer
                  \<and> m_memory (m_reader d) = response_span 0 2147483648
                  \<and> length (m_packet d) = 1460 \<and> length (m_response d) = 2147483648
                  \<and> span_in_bounds (m_packet d) (m_response d) (m_memory (m_reader d))
                  \<and> m_response d = replicate 2147483648 (CHR ''x'')
                  \<and> sint (m_read_index (m_reader d)) = - 2147483648
                  \<and> get_status d = Inl OutOfBounds)
     (run [Poll 2]
        (entering read_packet_into_response 2147483648 (replicate 1460 NUL) 2147483648 0
           (replicate 2147483648 (CHR ''x''))))"
  by (simp add: run_defs)

text \<open>
  C10, amended: on entry to \<open>reading_first_packet\<close> the destination is the first
  \<open>N\<close> bytes of the packet array, whatever the announced \<open>N\<close>, and lies inside the
  array of 1460 bytes exactly when \<open>N \<le> 1460\<close>; on entry to
  \<open>read_packet_into_response\<close> it is the \<open>N\<close> bytes of the response buffer from
  the write position, and lies inside the buffer exactly when the position plus \<open>N\<close>
  is at most its size. A read into a destination that lies inside its buffer and has
  fewer than \<open>2 ^ 31\<close> bytes returns no fault, keeps the sizes of both buffers and
  every byte outside the destination, and leaves the reader as the next call needs
  it. A destination that runs past its buffer is written past the end as soon as the
  line holds the announced bytes: the fault.
\<close>

theorem read_destinations:
  "(m_state d = reading_first_packet \<and> length (m_packet d) = maximum_response_packet_size \<longrightarrow>
      (\<exists>d'. transition_state d = Inr d'
          \<and> m_memory (m_reader d') = packet_span 0 (unat (get (m_integer_reader d)))
          \<and> m_read_index (m_reader d') = 0 \<and> m_read_state d' = into_buffer
          \<and> m_packet d' = m_packet d \<and> m_response d' = m_response d
          \<and> (span_in_bounds (m_packet d') (m_response d') (m_memory (m_reader d'))
               \<longleftrightarrow> unat (get (m_integer_reader d)) \<le> 1460)))
   \<and> (m_state d = read_packet_into_response \<longrightarrow>
      (\<exists>d'. transition_state d = Inr d'
          \<and> m_memory (m_reader d')
              = response_span (size_t_of_int (sint (m_response_position d)))
                  (unat (get (m_integer_reader d)))
          \<and> m_read_index (m_reader d') = 0 \<and> m_read_state d' = into_buffer
          \<and> m_packet d' = m_packet d \<and> m_response d' = m_response d
          \<and> (span_in_bounds (m_packet d') (m_response d') (m_memory (m_reader d'))
               \<longleftrightarrow> size_t_of_int (sint (m_response_position d))
                     + unat (get (m_integer_reader d)) \<le> length (m_response d))))
   \<and> (span_in_bounds pk rs (m_memory r) \<and> span_size (m_memory r) < 2 ^ 31
        \<and> read_offset r \<le> span_size (m_memory r) \<longrightarrow>
      (\<exists>fin r' s' pk' rs'.
           reader_done pk rs r s = Inr (fin, r', s', pk', rs')
         \<and> m_memory r' = m_memory r \<and> read_offset r' \<le> span_size (m_memory r')
         \<and> writes_within (m_memory r) pk rs pk' rs'
         \<and> span_in_bounds pk' rs' (m_memory r')))
   \<and> (\<not> span_in_bounds pk rs (m_memory r) \<and> m_read_index r = 0
        \<and> 0 < span_size (m_memory r) \<and> span_size (m_memory r) \<le> length (rx s) \<longrightarrow>
      reader_done pk rs r s = Inl OutOfBounds)"
proof -
  have "unat (get (m_integer_reader d)) < 2 ^ 32"
    using unsigned_less [of "get (m_integer_reader d)", where ?'a = nat] by simp
  then have ne: "unat (get (m_integer_reader d)) \<noteq> dynamic_extent"
    by (simp add: dynamic_extent_def)
  have a: "m_state d = reading_first_packet \<and> length (m_packet d) = maximum_response_packet_size \<longrightarrow>
      (\<exists>d'. transition_state d = Inr d'
          \<and> m_memory (m_reader d') = packet_span 0 (unat (get (m_integer_reader d)))
          \<and> m_read_index (m_reader d') = 0 \<and> m_read_state d' = into_buffer
          \<and> m_packet d' = m_packet d \<and> m_response d' = m_response d
          \<and> (span_in_bounds (m_packet d') (m_response d') (m_memory (m_reader d'))
               \<longleftrightarrow> unat (get (m_integer_reader d)) \<le> 1460))"
    by (simp add: transition_state_def new_buffer_def maximum_response_packet_size_def)
  have b: "m_state d = read_packet_into_response \<longrightarrow>
      (\<exists>d'. transition_state d = Inr d'
          \<and> m_memory (m_reader d')
              = response_span (size_t_of_int (sint (m_response_position d)))
                  (unat (get (m_integer_reader d)))
          \<and> m_read_index (m_reader d') = 0 \<and> m_read_state d' = into_buffer
          \<and> m_packet d' = m_packet d \<and> m_response d' = m_response d
          \<and> (span_in_bounds (m_packet d') (m_response d') (m_memory (m_reader d'))
               \<longleftrightarrow> size_t_of_int (sint (m_response_position d))
                     + unat (get (m_integer_reader d)) \<le> length (m_response d)))"
    using ne by (simp add: transition_state_def new_buffer_def response_subspan_def)
  from a b reader_done_in_bounds [of pk rs r s] reader_done_out_of_bounds [of pk rs r s]
  show ?thesis by blast
qed

theorem read_destinations_witness:
  "m_state (in_phase reading_first_packet 64 (replicate 1460 NUL) 43 0) = reading_first_packet
   \<and> length (m_packet (in_phase reading_first_packet 64 (replicate 1460 NUL) 43 0))
       = maximum_response_packet_size
   \<and> (\<exists>d'. transition_state (in_phase reading_first_packet 64 (replicate 1460 NUL) 43 0) = Inr d'
          \<and> m_memory (m_reader d') = packet_span 0 43
          \<and> span_in_bounds (m_packet d') (m_response d') (m_memory (m_reader d')))
   \<and> m_state (in_phase read_packet_into_response 64 (replicate 1460 NUL) 50 20)
       = read_packet_into_response
   \<and> (\<exists>d'. transition_state (in_phase read_packet_into_response 64 (replicate 1460 NUL) 50 20)
            = Inr d'
          \<and> m_memory (m_reader d') = response_span 20 50
          \<and> \<not> span_in_bounds (m_packet d') (m_response d') (m_memory (m_reader d')))
   \<and> span_in_bounds (replicate 8 NUL) [] (packet_span 2 4)
   \<and> span_size (packet_span 2 4) < 2 ^ 31
   \<and> read_offset \<lparr>m_memory = packet_span 2 4, m_read_index = 1\<rparr> \<le> span_size (packet_span 2 4)
   \<and> (\<exists>fin r' s' pk'.
         reader_done (replicate 8 NUL) [] \<lparr>m_memory = packet_span 2 4, m_read_index = 1\<rparr>
           \<lparr>rx = ''abcdef'', tx = []\<rparr> = Inr (fin, r', s', pk', [])
         \<and> length pk' = 8 \<and> take 2 pk' = replicate 2 NUL \<and> drop 6 pk' = replicate 2 NUL)
   \<and> \<not> span_in_bounds (replicate 8 NUL) [] (packet_span 6 4)
   \<and> reader_done (replicate 8 NUL) [] \<lparr>m_memory = packet_span 6 4, m_read_index = 0\<rparr>
         \<lparr>rx = ''abcdef'', tx = []\<rparr> = Inl OutOfBounds"
proof -
  let ?d1 = "in_phase reading_first_packet 64 (replicate 1460 NUL) 43 0"
  let ?d2 = "in_phase read_packet_into_response 64 (replicate 1460 NUL) 50 20"
  let ?pk = "replicate 8 NUL" and ?s = "\<lparr>rx = ''abcdef'', tx = []\<rparr>"
  let ?r3 = "\<lparr>m_memory = packet_span 2 4, m_read_index = 1\<rparr>"
  let ?r4 = "\<lparr>m_memory = packet_span 6 4, m_read_index = 0\<rparr>"
  have h1: "m_state ?d1 = reading_first_packet
      \<and> length (m_packet ?d1) = maximum_response_packet_size"
    and h2: "m_state ?d2 = read_packet_into_response"
    by (simp_all add: in_phase_def maximum_response_packet_size_def)
  have h3: "span_in_bounds ?pk [] (m_memory ?r3) \<and> span_size (m_memory ?r3) < 2 ^ 31
      \<and> read_offset ?r3 \<le> span_size (m_memory ?r3)"
    and h4: "\<not> span_in_bounds ?pk [] (m_memory ?r4) \<and> m_read_index ?r4 = 0
      \<and> 0 < span_size (m_memory ?r4) \<and> span_size (m_memory ?r4) \<le> length (rx ?s)"
    by (simp_all add: read_offset_def size_t_of_int_def)
  from read_destinations [where d = ?d1, THEN conjunct1] h1
  have c1: "\<exists>d'. transition_state ?d1 = Inr d' \<and> m_memory (m_reader d') = packet_span 0 43
      \<and> span_in_bounds (m_packet d') (m_response d') (m_memory (m_reader d'))"
    by (auto simp: in_phase_def get_def)
  from read_destinations [where d = ?d2, THEN conjunct2, THEN conjunct1] h2
  have c2: "\<exists>d'. transition_state ?d2 = Inr d' \<and> m_memory (m_reader d') = response_span 20 50
      \<and> \<not> span_in_bounds (m_packet d') (m_response d') (m_memory (m_reader d'))"
    by (auto simp: in_phase_def get_def size_t_of_int_def fresh_def new_esp8266_def)
  from read_destinations [where pk = ?pk and rs = "[]" and r = ?r3 and s = ?s,
      THEN conjunct2, THEN conjunct2, THEN conjunct1] h3
  have c3: "\<exists>fin r' s' pk'. reader_done ?pk [] ?r3 ?s = Inr (fin, r', s', pk', [])
      \<and> length pk' = 8 \<and> take 2 pk' = replicate 2 NUL \<and> drop 6 pk' = replicate 2 NUL"
    by auto
  from read_destinations [where pk = ?pk and rs = "[]" and r = ?r4 and s = ?s,
      THEN conjunct2, THEN conjunct2, THEN conjunct2] h4
  have c4: "reader_done ?pk [] ?r4 ?s = Inl OutOfBounds"
    by (rule mp)
  from h1 h2 h3 h4 c1 c2 c3 c4 show ?thesis by simp
qed

end
